theory Spec2Isabelle
  imports Main
begin

section \<open>Process supervision of FAI-PEP: subprocess_with_logger.py and watchdog.py\<close>

text \<open>
  A shallow embedding of \<^verbatim>\<open>benchmarking/utils/subprocess_with_logger.py\<close> and
  \<^verbatim>\<open>benchmarking/utils/watchdog.py\<close>. Python names that start with an underscore
  cannot be Isabelle names; they carry the prefix \<open>u_\<close> here (\<open>u_processRun\<close> is
  \<^verbatim>\<open>_processRun\<close>, and so on).
\<close>

subsection \<open>Strings\<close>

text \<open>\<^verbatim>\<open>sep.join(xs)\<close>.\<close>

fun join :: "string \<Rightarrow> string list \<Rightarrow> string" where
  "join sep [] = []"
| "join sep [x] = x"
| "join sep (x # y # ys) = x @ sep @ join sep (y # ys)"

text \<open>
  \<^verbatim>\<open>str.rstrip()\<close> removes trailing white space. The characters of a line are 8-bit
  here; of those, Python's \<^verbatim>\<open>str.isspace\<close> holds for the code points 9 to 13, 28 to 32,
  133 and 160.
\<close>

definition isspace :: "char \<Rightarrow> bool" where
  "isspace c =
     (let n = (of_char c :: nat)
      in (9 \<le> n \<and> n \<le> 13) \<or> (28 \<le> n \<and> n \<le> 32) \<or> n = 133 \<or> n = 160)"

definition rstrip :: "string \<Rightarrow> string" where
  "rstrip s = rev (dropWhile isspace (rev s))"

text \<open>\<^verbatim>\<open>line.startswith(m)\<close> and the substring test \<^verbatim>\<open>m in line\<close>.\<close>

fun startswith :: "string \<Rightarrow> string \<Rightarrow> bool" where
  "startswith line [] = True"
| "startswith [] (c # m) = False"
| "startswith (d # line) (c # m) = (d = c \<and> startswith line m)"

fun str_in :: "string \<Rightarrow> string \<Rightarrow> bool" where
  "str_in m [] = (m = [])"
| "str_in m (d # line) = (startswith (d # line) m \<or> str_in m line)"

subsection \<open>Exceptions\<close>

text \<open>
  The exceptions the code distinguishes. \<^verbatim>\<open>subprocess.CalledProcessError\<close> carries its
  output, already decoded. \<open>OtherException cls\<close> is any other instance of
  \<^verbatim>\<open>Exception\<close>, of class \<open>cls\<close>. \<open>NonException cls\<close> is an exception outside
  \<^verbatim>\<open>Exception\<close> (\<^verbatim>\<open>KeyboardInterrupt\<close>, \<^verbatim>\<open>SystemExit\<close>), which
  \<^verbatim>\<open>except Exception\<close> does not catch.
\<close>

datatype exc =
    CalledProcessError string
  | OtherException string
  | NonException string

text \<open>\<^verbatim>\<open>f"{sys.exc_info()[0]}"\<close>: the class, printed.\<close>

definition class_repr :: "string \<Rightarrow> string" where
  "class_repr cls = ''<class '' @ [CHR 0x27] @ cls @ [CHR 0x27] @ ''>''"

subsection \<open>The output filter\<close>

text \<open>
  \<^verbatim>\<open>del output[j]\<close>: a negative index counts from the end, an index out of range raises
  \<^verbatim>\<open>IndexError\<close>.
\<close>

definition del_index :: "'a list \<Rightarrow> int \<Rightarrow> exc + 'a list" where
  "del_index xs j =
     (let n = int (length xs); k = (if j < 0 then n + j else j)
      in if 0 \<le> k \<and> k < n then Inr (take (nat k) xs @ drop (Suc (nat k)) xs)
         else Inl (OtherException ''IndexError''))"

text \<open>
  The inner loop of \<^verbatim>\<open>_filterOutput\<close>:
  \<^verbatim>\<open>for match in match_list: if match in line: ...; break\<close>. It says whether the line is deleted.
\<close>

fun matches_any :: "string list \<Rightarrow> string \<Rightarrow> bool" where
  "matches_any [] line = False"
| "matches_any (m # match_list) line = (if str_in m line then True else matches_any match_list line)"

text \<open>
  The outer loop, over \<^verbatim>\<open>enumerate(output[::-1])\<close>: the reversed copy is made once, the
  deletions are made in \<^verbatim>\<open>output\<close> itself.
\<close>

fun filter_loop :: "nat \<Rightarrow> string list \<Rightarrow> (nat \<times> string) list \<Rightarrow> string list \<Rightarrow> exc + string list" where
  "filter_loop len match_list [] output = Inr output"
| "filter_loop len match_list ((i, line) # rest) output =
     (if matches_any match_list line
      then (case del_index output (int len - int i - 1) of
              Inl e \<Rightarrow> Inl e
            | Inr output' \<Rightarrow> filter_loop len match_list rest output')
      else filter_loop len match_list rest output)"

definition u_filterOutput :: "string list \<Rightarrow> string list \<Rightarrow> exc + string list" where
  "u_filterOutput output match_list =
     filter_loop (length output) match_list (enumerate 0 (rev output)) output"

text \<open>
  What the specification says the filter does: it removes the trailing lines that contain
  one of the substrings, scanning from the end and stopping at the first line that
  contains none.
\<close>

definition spec_filter_trailing :: "string list \<Rightarrow> string list \<Rightarrow> string list" where
  "spec_filter_trailing output match_list = rev (dropWhile (matches_any match_list) (rev output))"

subsection \<open>The world: registry, log, processes\<close>

text \<open>The log lines of the module, one constructor for each format string.\<close>

datatype log_msg =
    Sleeping nat
  | ProcessSucceeded string
  | ProcessFailed string
  | ProcessFailedWillRetry int string
  | Running string
  | CommandFailed string
  | UnknownExceptionCmd string string
  | UnknownException string
  | KilledAtUserRequest
  | ExitedWithStatus int
  | ProgramOutput string
  | ProcessTimedOut string

text \<open>What the module does to the outside, in the order it does it.\<close>

datatype effect =
    LogInfo log_msg
  | LogError log_msg
  | Sleep nat
  | Popen "string list" "(string \<times> string) list option"
  | TimerStart nat
  | TimerCancel
  | StdoutClose
  | Terminate
  | KillPg

text \<open>
  What a spawned process and the other threads do, as the supervising thread meets it:
  \<^item> \<open>TimerFires\<close>: the \<^verbatim>\<open>Timer\<close> thread runs \<^verbatim>\<open>_kill\<close>;
  \<^item> \<open>KillRequest key\<close>: another thread sets the kill-request flag of \<open>key\<close>;
  \<^item> \<open>PollTimeout\<close>: \<^verbatim>\<open>poller.poll(15.0)\<close> returns nothing;
  \<^item> \<open>ReadLine line\<close>: \<^verbatim>\<open>ps.stdout.readline()\<close> returns \<open>line\<close> (empty at the end of the stream);
  \<^item> \<open>ReadRaises e\<close>: polling or reading raises \<open>e\<close>;
  \<^item> \<open>WaitReturns status\<close>, \<open>WaitTimeoutExpired\<close>, \<open>WaitRaises e\<close>: what
    \<^verbatim>\<open>ps.wait(timeout=15.0)\<close> does.
  A process handle \<^verbatim>\<open>ps\<close> is the list of the events still to come. A loop that needs an
  event when none is left does not return: its value is \<open>None\<close>.
\<close>

datatype event =
    TimerFires
  | KillRequest string
  | PollTimeout
  | ReadLine string
  | ReadRaises exc
  | WaitReturns int
  | WaitTimeoutExpired
  | WaitRaises exc

text \<open>A process to be spawned: what \<^verbatim>\<open>subprocess.Popen\<close> raises, if it does, and the events.\<close>

record proc =
  spawn_error :: "exc option"
  events :: "event list"

text \<open>
  The state outside the call: the three tables of the run registry, the effects so far,
  the number of calls of \<^verbatim>\<open>_processRun\<close> so far (a ghost counter), the processes that
  the next calls of \<^verbatim>\<open>Popen\<close> spawn, and the armed \<^verbatim>\<open>Timer\<close> if there is one, with the
  command and the key it was given.
\<close>

record world =
  run_statuses :: "string \<rightharpoonup> int"
  timeout_flags :: "string \<rightharpoonup> bool"
  killed_flags :: "string \<rightharpoonup> bool"
  trace :: "effect list"
  attempts :: nat
  procs :: "proc list"
  timer :: "(string \<times> string) option"

definition effect :: "effect \<Rightarrow> world \<Rightarrow> world" where
  "effect e w = w\<lparr>trace := trace w @ [e]\<rparr>"

definition log_info :: "log_msg \<Rightarrow> world \<Rightarrow> world" where
  "log_info m w = effect (LogInfo m) w"

definition log_error :: "log_msg \<Rightarrow> world \<Rightarrow> world" where
  "log_error m w = effect (LogError m) w"

subsection \<open>The run registry\<close>

text \<open>
  Modelled from the spec: \<^verbatim>\<open>utils/utilities.py\<close>, which defines \<^verbatim>\<open>setRunStatus\<close>,
  \<^verbatim>\<open>getRunStatus\<close>, \<^verbatim>\<open>setRunTimeout\<close>, \<^verbatim>\<open>getRunTimeout\<close> and \<^verbatim>\<open>getRunKilled\<close>, is not
  among the sources. The specification gives the registry, for each run key, a status
  (unset, success 0 or failure 1), a timed-out flag and a kill-request flag, the key
  defaulting to the empty string; a state is made on the first reference to its key. An
  unset status reads as 0 and an unset flag as false. Without \<^verbatim>\<open>overwrite\<close> a status is
  merged into the recorded one, so that a recorded failure stays (the source resets the
  status with \<^verbatim>\<open>overwrite=True\<close> "overwritting error from prior run").
\<close>

unbundle bit_operations_syntax

definition getRunStatus :: "string \<Rightarrow> world \<Rightarrow> int" where
  "getRunStatus key w = (case run_statuses w key of None \<Rightarrow> 0 | Some s \<Rightarrow> s)"

definition setRunStatus :: "int \<Rightarrow> bool \<Rightarrow> string \<Rightarrow> world \<Rightarrow> world" where
  "setRunStatus status overwrite key w =
     (if overwrite then w\<lparr>run_statuses := (run_statuses w)(key \<mapsto> status)\<rparr>
      else w\<lparr>run_statuses := (run_statuses w)(key \<mapsto> getRunStatus key w OR status)\<rparr>)"

definition getRunTimeout :: "string \<Rightarrow> world \<Rightarrow> bool" where
  "getRunTimeout key w = (case timeout_flags w key of None \<Rightarrow> False | Some b \<Rightarrow> b)"

definition setRunTimeout :: "bool \<Rightarrow> string \<Rightarrow> world \<Rightarrow> world" where
  "setRunTimeout timedOut key w = w\<lparr>timeout_flags := (timeout_flags w)(key \<mapsto> timedOut)\<rparr>"

definition getRunKilled :: "string \<Rightarrow> world \<Rightarrow> bool" where
  "getRunKilled key w = (case killed_flags w key of None \<Rightarrow> False | Some b \<Rightarrow> b)"

definition setRunKilled :: "bool \<Rightarrow> string \<Rightarrow> world \<Rightarrow> world" where
  "setRunKilled killed key w = w\<lparr>killed_flags := (killed_flags w)(key \<mapsto> killed)\<rparr>"

subsection \<open>The timeout guard and the other threads\<close>

text \<open>
  \<^verbatim>\<open>_kill(p, cmd, processKey)\<close>. \<^verbatim>\<open>os.killpg\<close> may raise \<^verbatim>\<open>OSError\<close>, which is ignored.
  The status is set for \<^verbatim>\<open>processKey\<close>; \<^verbatim>\<open>setRunTimeout()\<close> is called with no key.
\<close>

definition u_kill :: "string \<Rightarrow> string \<Rightarrow> world \<Rightarrow> world" where
  "u_kill cmd processKey w =
     setRunTimeout True []
       (setRunStatus 1 False processKey
          (log_error (ProcessTimedOut cmd) (effect KillPg w)))"

text \<open>The armed timer fires, once; with no timer armed nothing happens.\<close>

definition timer_fires :: "world \<Rightarrow> world" where
  "timer_fires w =
     (case timer w of
        None \<Rightarrow> w
      | Some (cmd, processKey) \<Rightarrow> u_kill cmd processKey (w\<lparr>timer := None\<rparr>))"

definition kill_request :: "string \<Rightarrow> world \<Rightarrow> world" where
  "kill_request key w = setRunKilled True key w"

text \<open>The events of the other threads that come before the next event of the process.\<close>

fun drain :: "event list \<Rightarrow> world \<Rightarrow> event list \<times> world" where
  "drain (TimerFires # ps) w = drain ps (timer_fires w)"
| "drain (KillRequest key # ps) w = drain ps (kill_request key w)"
| "drain ps w = (ps, w)"

subsection \<open>The keyword arguments\<close>

text \<open>
  A pattern is a compiled regular expression, of which the code uses \<^verbatim>\<open>pattern.match\<close>
  only. \<^verbatim>\<open>patterns\<close> is a list of them or a single one.
\<close>

type_synonym pattern = "string \<Rightarrow> bool"

datatype patterns_arg = PatternList "pattern list" | PatternSingle pattern

text \<open>
  \<^verbatim>\<open>**kwargs\<close>. A key the code reads with \<^verbatim>\<open>kwargs.get(key, False)\<close> for its truth is a
  \<open>bool\<close>; a key that may be absent is an \<open>option\<close>. \<open>filter_list\<close> is the key
  \<^verbatim>\<open>"filter"\<close>. Durations are whole numbers.
\<close>

record kwargs =
  process_key :: "string option"
  retry :: "int option"
  retry_sleep :: "nat option"
  silent :: bool
  async :: bool
  non_blocking :: bool
  timeout :: "nat option"
  log_output :: bool
  ignore_status :: bool
  patterns :: patterns_arg
  filter_list :: "string list option"
  env :: "(string \<times> string) list option"

text \<open>\<^verbatim>\<open>kwargs.get("process_key", "")\<close>.\<close>

definition key_of :: "kwargs \<Rightarrow> string" where
  "key_of kw = (case process_key kw of None \<Rightarrow> [] | Some key \<Rightarrow> key)"

text \<open>
  What a call returns: the lines, or the pair \<^verbatim>\<open>(ps, t)\<close> of an asynchronous run (the
  events to come, and whether there is a timer); and the error string, if any.
\<close>

datatype ret_val = Lines "string list" | Handle "event list" bool

type_synonym result = "ret_val \<times> string option"

subsection \<open>Spawning and reading\<close>

text \<open>
  \<^verbatim>\<open>_Popen\<close>: only \<^verbatim>\<open>env\<close> is passed on. It spawns the next process of the world;
  when the world has none left, nothing is known of the spawn and the value is \<open>None\<close>.
\<close>

definition u_Popen :: "string list \<Rightarrow> kwargs \<Rightarrow> world \<Rightarrow> ((exc + event list) \<times> world) option" where
  "u_Popen args kw w =
     (case procs w of
        [] \<Rightarrow> None
      | p # rest \<Rightarrow>
          (let w' = effect (Popen args (env kw)) (w\<lparr>procs := rest\<rparr>)
           in case spawn_error p of
                Some e \<Rightarrow> Some (Inl e, w')
              | None \<Rightarrow> Some (Inr (events p), w')))"

text \<open>\<^verbatim>\<open>for pattern in patterns: if pattern.match(nline): match = True; break\<close>.\<close>

fun any_match :: "pattern list \<Rightarrow> string \<Rightarrow> bool" where
  "any_match [] nline = False"
| "any_match (p # ps) nline = (if p nline then True else any_match ps nline)"

text \<open>
  The loop of \<^verbatim>\<open>_getOutput\<close>. Each round reads the kill-request flag of the process
  key, polls, reads a line, stops at the end of the stream, appends the right-trimmed line
  (\<^verbatim>\<open>nline.decode\<close> does not exist for a \<^verbatim>\<open>str\<close>, and the failure is passed over) and
  tests the patterns. The value is the lines and the match flag, or the exception raised,
  with the events left.
\<close>

fun getOutput_loop ::
  "pattern list \<Rightarrow> string \<Rightarrow> string list \<Rightarrow> event list \<Rightarrow> world
   \<Rightarrow> ((exc + string list \<times> bool) \<times> event list \<times> world) option" where
  "getOutput_loop pats key lines (TimerFires # ps) w =
     getOutput_loop pats key lines ps (timer_fires w)"
| "getOutput_loop pats key lines (KillRequest k # ps) w =
     getOutput_loop pats key lines ps (kill_request k w)"
| "getOutput_loop pats key lines [] w =
     (if getRunKilled key w then Some (Inr (lines, False), [], w) else None)"
| "getOutput_loop pats key lines (PollTimeout # ps) w =
     (if getRunKilled key w then Some (Inr (lines, False), PollTimeout # ps, w)
      else getOutput_loop pats key lines ps w)"
| "getOutput_loop pats key lines (ReadLine line # ps) w =
     (if getRunKilled key w then Some (Inr (lines, False), ReadLine line # ps, w)
      else if line = [] then Some (Inr (lines, False), ps, w)
      else (let nline = rstrip line; lines' = lines @ [nline]
            in if any_match pats nline then Some (Inr (lines', True), ps, w)
               else getOutput_loop pats key lines' ps w))"
| "getOutput_loop pats key lines (ReadRaises e # ps) w =
     (if getRunKilled key w then Some (Inr (lines, False), ReadRaises e # ps, w)
      else Some (Inl e, ps, w))"
| "getOutput_loop pats key lines (WaitReturns s # ps) w =
     (if getRunKilled key w then Some (Inr (lines, False), WaitReturns s # ps, w) else None)"
| "getOutput_loop pats key lines (WaitTimeoutExpired # ps) w =
     (if getRunKilled key w then Some (Inr (lines, False), WaitTimeoutExpired # ps, w) else None)"
| "getOutput_loop pats key lines (WaitRaises e # ps) w =
     (if getRunKilled key w then Some (Inr (lines, False), WaitRaises e # ps, w) else None)"

definition u_getOutput ::
  "event list \<Rightarrow> patterns_arg \<Rightarrow> string \<Rightarrow> world
   \<Rightarrow> ((exc + string list \<times> bool) \<times> event list \<times> world) option" where
  "u_getOutput ps pats pkey w =
     (let pats' = (case pats of PatternList l \<Rightarrow> l | PatternSingle p \<Rightarrow> [p])
      in getOutput_loop pats' pkey [] ps w)"

subsection \<open>Waiting for the process\<close>

text \<open>
  The loop \<^verbatim>\<open>while not getRunKilled(): try: status = ps.wait(timeout=15.0); break ...\<close>.
  It reads the kill-request flag with no key. \<^verbatim>\<open>status\<close> stays unbound (\<open>None\<close>) when the
  loop ends on the flag. The output is closed by then: what the process still writes is
  passed over.
\<close>

fun wait_loop :: "event list \<Rightarrow> world \<Rightarrow> ((exc + int option) \<times> event list \<times> world) option" where
  "wait_loop (TimerFires # ps) w = wait_loop ps (timer_fires w)"
| "wait_loop (KillRequest k # ps) w = wait_loop ps (kill_request k w)"
| "wait_loop (PollTimeout # ps) w = wait_loop ps w"
| "wait_loop (ReadLine line # ps) w = wait_loop ps w"
| "wait_loop (ReadRaises e # ps) w = wait_loop ps w"
| "wait_loop [] w = (if getRunKilled [] w then Some (Inr None, [], w) else None)"
| "wait_loop (WaitReturns s # ps) w =
     (if getRunKilled [] w then Some (Inr None, WaitReturns s # ps, w)
      else Some (Inr (Some s), ps, w))"
| "wait_loop (WaitTimeoutExpired # ps) w =
     (if getRunKilled [] w then Some (Inr None, WaitTimeoutExpired # ps, w)
      else wait_loop ps w)"
| "wait_loop (WaitRaises e # ps) w =
     (if getRunKilled [] w then Some (Inr None, WaitRaises e # ps, w)
      else Some (Inl e, ps, w))"

text \<open>
  The dump of the output to the log: \<^verbatim>\<open>if "filter" in kwargs: output = _filterOutput(...)\<close>,
  then the log line. The filtered list replaces \<^verbatim>\<open>output\<close>.
\<close>

definition dump_output :: "kwargs \<Rightarrow> string list \<Rightarrow> world \<Rightarrow> (exc + string list) \<times> world" where
  "dump_output kw output w =
     (case (case filter_list kw of
              None \<Rightarrow> Inr output
            | Some match_list \<Rightarrow> u_filterOutput output match_list) of
        Inl e \<Rightarrow> (Inl e, w)
      | Inr output' \<Rightarrow> (Inr output', log_info (ProgramOutput (join [CHR 0x0A] output')) w))"

text \<open>
  The end of \<^verbatim>\<open>processWait\<close>, from \<^verbatim>\<open>if t is not None: t.cancel()\<close> on. Reading the
  unbound \<^verbatim>\<open>status\<close> raises \<^verbatim>\<open>UnboundLocalError\<close>.
\<close>

definition finish_wait ::
  "kwargs \<Rightarrow> bool \<Rightarrow> string \<Rightarrow> string list \<Rightarrow> int option \<Rightarrow> world \<Rightarrow> (exc + result) \<times> world" where
  "finish_wait kw t pkey output status_opt w =
     (let w1 = (if t then (effect TimerCancel w)\<lparr>timer := None\<rparr> else w)
      in case status_opt of
           None \<Rightarrow> (Inl (OtherException ''UnboundLocalError''), w1)
         | Some status \<Rightarrow>
             (case (if log_output kw
                    then dump_output kw output
                           (if status \<noteq> 0
                            then setRunStatus 1 False pkey (log_info (ExitedWithStatus status) w1)
                            else w1)
                    else if status \<noteq> 0
                    then dump_output kw output
                           (setRunStatus 1 False pkey (log_info (ExitedWithStatus status) w1))
                    else (Inr output, w1)) of
                (Inl e, w2) \<Rightarrow> (Inl e, w2)
              | (Inr output', w2) \<Rightarrow>
                  (if status = 0 \<or> ignore_status kw
                   then (Inr (Lines output', None), setRunStatus 0 False pkey w2)
                   else (Inr (Lines [], Some (join [CHR 0x0A] output')),
                         setRunStatus 1 False pkey w2))))"

text \<open>The body of the \<^verbatim>\<open>try\<close> of \<^verbatim>\<open>processWait\<close>; \<open>Inl\<close> is an exception raised in it.\<close>

definition processWait_body ::
  "event list \<times> bool \<Rightarrow> kwargs \<Rightarrow> world \<Rightarrow> ((exc + result) \<times> world) option" where
  "processWait_body processAndTimeout kw w =
     (case processAndTimeout of (ps, t) \<Rightarrow>
        (let pkey = key_of kw
         in case u_getOutput ps (patterns kw) pkey w of
              None \<Rightarrow> None
            | Some (Inl e, ps1, w1) \<Rightarrow> Some (Inl e, w1)
            | Some (Inr (output, match), ps1, w1) \<Rightarrow>
                (let w2 = effect StdoutClose w1
                 in if match
                    then Some (finish_wait kw t pkey output (Some 0) (effect Terminate w2))
                    else (case wait_loop ps1 w2 of
                            None \<Rightarrow> None
                          | Some (Inl e, ps2, w3) \<Rightarrow> Some (Inl e, w3)
                          | Some (Inr status_opt, ps2, w3) \<Rightarrow>
                              (case drain ps2 w3 of (ps3, w4) \<Rightarrow>
                                 (if getRunKilled [] w4
                                  then Some (finish_wait kw t pkey output (Some 0)
                                               (effect Terminate (log_info KilledAtUserRequest w4)))
                                  else Some (finish_wait kw t pkey output status_opt w4)))))))"

text \<open>
  \<^verbatim>\<open>processWait\<close>: the two handlers return the empty list and the error string, and
  set no run status. An exception outside \<^verbatim>\<open>Exception\<close> goes on to the caller.
\<close>

definition processWait ::
  "event list \<times> bool \<Rightarrow> kwargs \<Rightarrow> world \<Rightarrow> ((exc + result) \<times> world) option" where
  "processWait processAndTimeout kw w =
     (case processWait_body processAndTimeout kw w of
        None \<Rightarrow> None
      | Some (Inr r, w') \<Rightarrow> Some (Inr r, w')
      | Some (Inl (CalledProcessError out), w') \<Rightarrow>
          Some (Inr (Lines [], Some out), log_error (CommandFailed out) w')
      | Some (Inl (OtherException cls), w') \<Rightarrow>
          Some (Inr (Lines [], Some (class_repr cls)),
                log_error (UnknownException (class_repr cls)) w')
      | Some (Inl (NonException cls), w') \<Rightarrow> Some (Inl (NonException cls), w'))"

subsection \<open>One attempt\<close>

text \<open>
  The body of the \<^verbatim>\<open>try\<close> of \<^verbatim>\<open>_processRun\<close>. \<^verbatim>\<open>kwargs["process_key"]\<close> raises
  \<^verbatim>\<open>KeyError\<close> when the key is absent. A timeout that is absent or 0 arms no timer.
\<close>

definition processRun_body ::
  "string list \<Rightarrow> kwargs \<Rightarrow> world \<Rightarrow> ((exc + result) \<times> world) option" where
  "processRun_body args kw w =
     (if non_blocking kw
      then (case u_Popen args kw w of
              None \<Rightarrow> None
            | Some (Inl e, w1) \<Rightarrow> Some (Inl e, w1)
            | Some (Inr ps, w1) \<Rightarrow> Some (Inr (Lines [], None), w1))
      else (case u_Popen args kw w of
              None \<Rightarrow> None
            | Some (Inl e, w1) \<Rightarrow> Some (Inl e, w1)
            | Some (Inr ps, w1) \<Rightarrow>
                (case (case timeout kw of
                         None \<Rightarrow> Inr (False, w1)
                       | Some secs \<Rightarrow>
                           (if secs = 0 then Inr (False, w1)
                            else (case process_key kw of
                                    None \<Rightarrow> Inl (OtherException ''KeyError'')
                                  | Some pkey \<Rightarrow>
                                      Inr (True, (effect (TimerStart secs) w1)
                                                   \<lparr>timer := Some (join '' '' args, pkey)\<rparr>)))) of
                   Inl e \<Rightarrow> Some (Inl e, w1)
                 | Inr (t, w2) \<Rightarrow>
                     (if async kw then Some (Inr (Handle ps t, None), w2)
                      else processWait (ps, t) kw w2))))"

text \<open>
  \<^verbatim>\<open>_processRun\<close>. The ghost counter counts the call. After a handler,
  \<^verbatim>\<open>setRunStatus(1, key=kwargs["process_key"])\<close> and the empty list with the error.
\<close>

definition after_handler :: "kwargs \<Rightarrow> string \<Rightarrow> world \<Rightarrow> (exc + result) \<times> world" where
  "after_handler kw err_output w =
     (case process_key kw of
        None \<Rightarrow> (Inl (OtherException ''KeyError''), w)
      | Some pkey \<Rightarrow> (Inr (Lines [], Some err_output), setRunStatus 1 False pkey w))"

definition u_processRun ::
  "string list \<Rightarrow> kwargs \<Rightarrow> world \<Rightarrow> ((exc + result) \<times> world) option" where
  "u_processRun args kw w =
     (let w0 = w\<lparr>attempts := Suc (attempts w)\<rparr>;
          w1 = (if \<not> silent kw then log_info (Running (join '' '' args)) w0 else w0)
      in case processRun_body args kw w1 of
           None \<Rightarrow> None
         | Some (Inr r, w2) \<Rightarrow> Some (Inr r, w2)
         | Some (Inl (CalledProcessError out), w2) \<Rightarrow>
             Some (after_handler kw out (log_error (CommandFailed out) w2))
         | Some (Inl (OtherException cls), w2) \<Rightarrow>
             Some (after_handler kw (class_repr cls)
                     (log_error (UnknownExceptionCmd (class_repr cls) (join '' '' args)) w2))
         | Some (Inl (NonException cls), w2) \<Rightarrow> Some (Inl (NonException cls), w2))"

subsection \<open>The retry loop\<close>

text \<open>
  The \<^verbatim>\<open>while retryCount > 0\<close> loop of \<^verbatim>\<open>processRun\<close>. \<open>ret\<close> is \<open>None\<close> while
  \<^verbatim>\<open>ret\<close> is unbound; returning it then raises \<^verbatim>\<open>UnboundLocalError\<close>.
  \<^verbatim>\<open>getRunTimeout()\<close> is called with no key.
\<close>

definition before_attempt :: "kwargs \<Rightarrow> world \<Rightarrow> world" where
  "before_attempt kw w =
     (let w1 = setRunStatus 0 True (key_of kw) w
      in case retry_sleep kw of
           None \<Rightarrow> w1
         | Some secs \<Rightarrow> if secs = 0 then w1 else effect (Sleep secs) (log_info (Sleeping secs) w1))"

function processRun_loop ::
  "string list \<Rightarrow> kwargs \<Rightarrow> int \<Rightarrow> result option \<Rightarrow> world \<Rightarrow> ((exc + result) \<times> world) option" where
  "processRun_loop args kw retryCount ret w =
     (if retryCount > 0
      then (case u_processRun args kw (before_attempt kw w) of
              None \<Rightarrow> None
            | Some (Inl e, w') \<Rightarrow> Some (Inl e, w')
            | Some (Inr r, w') \<Rightarrow>
                (if getRunStatus (key_of kw) w' = 0
                 then Some (Inr r, if \<not> silent kw
                                   then log_info (ProcessSucceeded (join '' '' args)) w'
                                   else w')
                 else if getRunTimeout [] w'
                 then Some (Inr r, log_info (ProcessFailed (join '' '' args)) w')
                 else processRun_loop args kw (retryCount - 1) (Some r)
                        (log_info (ProcessFailedWillRetry (retryCount - 1) (join '' '' args)) w')))
      else (case ret of
              None \<Rightarrow> Some (Inl (OtherException ''UnboundLocalError''), w)
            | Some r \<Rightarrow> Some (Inr r, w)))"
  by pat_completeness auto
termination
  by (relation "measure (\<lambda>(args, kw, retryCount, ret, w). nat retryCount)") auto

text \<open>\<^verbatim>\<open>if "process_key" not in kwargs: kwargs["process_key"] = ""\<close>.\<close>

definition default_key :: "kwargs \<Rightarrow> kwargs" where
  "default_key kw = (if process_key kw = None then kw\<lparr>process_key := Some []\<rparr> else kw)"

definition processRun ::
  "string list \<Rightarrow> kwargs \<Rightarrow> world \<Rightarrow> ((exc + result) \<times> world) option" where
  "processRun args kw w =
     (let kw' = default_key kw;
          retryCount = (case retry kw' of None \<Rightarrow> 3 | Some n \<Rightarrow> n)
      in processRun_loop args kw' retryCount None w)"

subsection \<open>The watchdog\<close>

text \<open>
  \<^verbatim>\<open>WatchDog\<close>. \<open>'s\<close> is the state that \<^verbatim>\<open>main\<close>, \<^verbatim>\<open>condition\<close> and \<^verbatim>\<open>action\<close>
  share. \<^verbatim>\<open>main(*args)\<close> runs beside the watchdog thread: it is given as a schedule, the
  steps it takes and, between them, the instants at which the watchdog thread finds
  \<^verbatim>\<open>self.running\<close> true and makes a round of its loop; and as the way it ends. Either it
  returns, a value that depends on the state it ends in. Or it raises: \<^verbatim>\<open>start\<close> has no
  handler, so \<^verbatim>\<open>self.running = False\<close> and the \<^verbatim>\<open>join\<close> are not reached, the exception
  goes to the caller of \<^verbatim>\<open>start\<close> and the watchdog thread polls on; the second schedule
  is what happens then, the steps of the rest of the program and the polls that the thread
  still makes.
\<close>

datatype 's sched = MainStep "'s \<Rightarrow> 's" | Poll

datatype ('s, 'r) main_end = Returns "'s \<Rightarrow> 'r" | Raises exc "'s sched list"

record ('s, 'a, 'r) WatchDog =
  main :: "'a \<Rightarrow> 's sched list \<times> ('s, 'r) main_end"
  condition :: "'s \<Rightarrow> bool"
  action :: "'s \<Rightarrow> 's"
  delay :: nat
  once :: bool

text \<open>
  \<^verbatim>\<open>_runWatchdog\<close> beside \<^verbatim>\<open>main\<close>. \<open>alive\<close> says that the watchdog thread has not left
  its loop; \<open>n\<close> counts the calls of \<^verbatim>\<open>action\<close>. A round of the loop evaluates the
  condition, calls the action if it holds, and with \<^verbatim>\<open>once\<close> leaves the loop then;
  between two rounds the thread sleeps.
\<close>

fun runWatchdog ::
  "('s, 'a, 'r) WatchDog \<Rightarrow> 's sched list \<Rightarrow> bool \<Rightarrow> 's \<Rightarrow> nat \<Rightarrow> 's \<times> nat" where
  "runWatchdog wd [] alive s n = (s, n)"
| "runWatchdog wd (MainStep f # sc) alive s n = runWatchdog wd sc alive (f s) n"
| "runWatchdog wd (Poll # sc) alive s n =
     (if alive
      then (if condition wd s
            then (if once wd then runWatchdog wd sc False (action wd s) (Suc n)
                  else runWatchdog wd sc True (action wd s) (Suc n))
            else runWatchdog wd sc True s n)
      else runWatchdog wd sc False s n)"

text \<open>
  \<^verbatim>\<open>start\<close>: the value returned or the exception raised, the state at the end and the
  number of calls of \<^verbatim>\<open>action\<close>. When \<^verbatim>\<open>main\<close> returns, \<^verbatim>\<open>self.running\<close> is set to
  false at the end of its schedule and the thread, if alive, leaves its loop and is joined.
  When \<^verbatim>\<open>main\<close> raises, the thread goes on through the second schedule, and the state
  and the number of calls are those after it.
\<close>

definition start :: "('s, 'a, 'r) WatchDog \<Rightarrow> 'a \<Rightarrow> 's \<Rightarrow> (exc + 'r) \<times> 's \<times> nat" where
  "start wd args s =
     (case main wd args of
        (sc, Returns ret) \<Rightarrow>
          (case runWatchdog wd sc True s 0 of (s', n) \<Rightarrow> (Inr (ret s'), s', n))
      | (sc, Raises e later) \<Rightarrow>
          (case runWatchdog wd (sc @ later) True s 0 of (s', n) \<Rightarrow> (Inl e, s', n)))"

text \<open>\<^verbatim>\<open>main\<close> alone: its steps, with no watchdog.\<close>

fun main_alone :: "'s sched list \<Rightarrow> 's \<Rightarrow> 's" where
  "main_alone [] s = s"
| "main_alone (MainStep f # sc) s = main_alone sc (f s)"
| "main_alone (Poll # sc) s = main_alone sc s"

text \<open>
  The condition holds at one of the instants at which the watchdog thread polls, no action
  having been taken before.
\<close>

fun becomes_true :: "('s, 'a, 'r) WatchDog \<Rightarrow> 's sched list \<Rightarrow> 's \<Rightarrow> bool" where
  "becomes_true wd [] s = False"
| "becomes_true wd (MainStep f # sc) s = becomes_true wd sc (f s)"
| "becomes_true wd (Poll # sc) s = (if condition wd s then True else becomes_true wd sc s)"

text \<open>
  The condition holds in one of the states that \<^verbatim>\<open>main\<close> passes through, whether the
  watchdog thread polls then or not.
\<close>

fun holds_during :: "('s, 'a, 'r) WatchDog \<Rightarrow> 's sched list \<Rightarrow> 's \<Rightarrow> bool" where
  "holds_during wd [] s = condition wd s"
| "holds_during wd (MainStep f # sc) s = (condition wd s \<or> holds_during wd sc (f s))"
| "holds_during wd (Poll # sc) s = holds_during wd sc s"

subsection \<open>Concrete worlds and arguments\<close>

text \<open>A world with an empty registry, and the keyword arguments when none is given.\<close>

definition world0 :: world where
  "world0 = \<lparr>run_statuses = Map.empty, timeout_flags = Map.empty, killed_flags = Map.empty,
             trace = [], attempts = 0, procs = [], timer = None\<rparr>"

definition kwargs0 :: kwargs where
  "kwargs0 = \<lparr>process_key = None, retry = None, retry_sleep = None, silent = False,
              async = False, non_blocking = False, timeout = None, log_output = False,
              ignore_status = False, patterns = PatternList [], filter_list = None,
              env = None\<rparr>"

text \<open>
  A watchdog over a counter: \<^verbatim>\<open>main\<close> takes five steps with four polls between them
  and returns the counter, the condition holds from the second step on, the action adds
  100.
\<close>

definition wd_example :: "(nat, unit, nat) WatchDog" where
  "wd_example = \<lparr>main = (\<lambda>_. ([MainStep Suc, Poll, MainStep Suc, Poll, MainStep Suc, Poll,
                                  MainStep Suc, Poll, MainStep Suc], Returns (\<lambda>s. s))),
                 condition = (\<lambda>s. 2 \<le> s), action = (\<lambda>s. s + 100), delay = 15, once = True\<rparr>"

text \<open>
  A \<^verbatim>\<open>main\<close> that is over before the second poll: the thread polls at once, then
  \<^verbatim>\<open>main\<close> takes its two steps and returns while the thread sleeps. The condition holds
  from the first step on.
\<close>

definition wd_late :: "(nat, unit, nat) WatchDog" where
  "wd_late = \<lparr>main = (\<lambda>_. ([Poll, MainStep Suc, MainStep Suc], Returns (\<lambda>s. s))),
              condition = (\<lambda>s. 1 \<le> s), action = (\<lambda>s. s + 100), delay = 15, once = True\<rparr>"

text \<open>
  A \<^verbatim>\<open>main\<close> that raises after one step. The condition does not hold while it runs; the
  program goes on, the counter reaches 11 and the thread, still polling, finds the condition
  true.
\<close>

definition wd_raises :: "(nat, unit, nat) WatchDog" where
  "wd_raises = \<lparr>main = (\<lambda>_. ([Poll, MainStep Suc],
                               Raises (OtherException ''RuntimeError'')
                                 [MainStep (\<lambda>s. s + 10), Poll])),
                condition = (\<lambda>s. 5 \<le> s), action = (\<lambda>s. s + 100), delay = 15, once = True\<rparr>"

subsection \<open>Notions used in the statements\<close>

text \<open>
  The attempts of a call, one after the other, all end with a failing run status and with
  the timed-out flag not set: \<open>outs\<close> lists what each attempt returns and the world it
  leaves, \<open>n\<close> is the retry count before the first of them.
\<close>

fun all_attempts_fail ::
  "string list \<Rightarrow> kwargs \<Rightarrow> int \<Rightarrow> world \<Rightarrow> (result \<times> world) list \<Rightarrow> bool" where
  "all_attempts_fail args kw n w [] = True"
| "all_attempts_fail args kw n w ((r, w') # outs) =
     (u_processRun args kw (before_attempt kw w) = Some (Inr r, w')
      \<and> getRunStatus (key_of kw) w' \<noteq> 0 \<and> \<not> getRunTimeout [] w'
      \<and> all_attempts_fail args kw (n - 1)
            (log_info (ProcessFailedWillRetry (n - 1) (join '' '' args)) w') outs)"

text \<open>The string an exception leaves in the error field.\<close>

fun error_string :: "exc \<Rightarrow> string" where
  "error_string (CalledProcessError out) = out"
| "error_string (OtherException cls) = class_repr cls"
| "error_string (NonException cls) = class_repr cls"

text \<open>The line the handlers of \<^verbatim>\<open>processWait\<close> log.\<close>

fun wait_handler_msg :: "exc \<Rightarrow> log_msg" where
  "wait_handler_msg (CalledProcessError out) = CommandFailed out"
| "wait_handler_msg (OtherException cls) = UnknownException (class_repr cls)"
| "wait_handler_msg (NonException cls) = UnknownException (class_repr cls)"

text \<open>An instance of \<^verbatim>\<open>Exception\<close>.\<close>

fun is_Exception :: "exc \<Rightarrow> bool" where
  "is_Exception (NonException cls) = False"
| "is_Exception e = True"

text \<open>
  The world in which \<^verbatim>\<open>_processRun\<close> calls \<^verbatim>\<open>processWait\<close> when the spawn succeeds:
  the call is counted and logged, the process is taken, the timer is armed if there is a
  timeout.
\<close>

definition spawned :: "string list \<Rightarrow> kwargs \<Rightarrow> world \<Rightarrow> world" where
  "spawned args kw w =
     (let w0 = w\<lparr>attempts := Suc (attempts w)\<rparr>;
          w1 = (if \<not> silent kw then log_info (Running (join '' '' args)) w0 else w0);
          w2 = effect (Popen args (env kw)) (w1\<lparr>procs := tl (procs w1)\<rparr>)
      in case timeout kw of
           None \<Rightarrow> w2
         | Some secs \<Rightarrow>
             if secs = 0 then w2
             else (effect (TimerStart secs) w2)\<lparr>timer := Some (join '' '' args, key_of kw)\<rparr>)"

text \<open>\<^verbatim>\<open>t is not None\<close>.\<close>

definition has_timer :: "kwargs \<Rightarrow> bool" where
  "has_timer kw = (case timeout kw of None \<Rightarrow> False | Some secs \<Rightarrow> secs \<noteq> 0)"




text \<open>The list of patterns that \<^verbatim>\<open>_getOutput\<close> tests.\<close>

definition pattern_list :: "kwargs \<Rightarrow> pattern list" where
  "pattern_list kw = (case patterns kw of PatternList l \<Rightarrow> l | PatternSingle p \<Rightarrow> [p])"

text \<open>
  The lines that \<^verbatim>\<open>processWait\<close> returns for the lines read: filtered when the output is
  dumped to the log and a filter is given.
\<close>

definition returned_lines :: "kwargs \<Rightarrow> string list \<Rightarrow> string list" where
  "returned_lines kw output =
     (case filter_list kw of
        None \<Rightarrow> output
      | Some match_list \<Rightarrow>
          if log_output kw then filter (\<lambda>line. \<not> matches_any match_list line) output
          else output)"

text \<open>No timer fires and no other thread asks for a kill.\<close>

fun no_async :: "event list \<Rightarrow> bool" where
  "no_async [] = True"
| "no_async (TimerFires # ps) = False"
| "no_async (KillRequest key # ps) = False"
| "no_async (e # ps) = no_async ps"

subsection \<open>Example processes\<close>

definition cmd_ex :: "string list" where
  "cmd_ex = [''bench'', ''--run'']"

text \<open>A process that writes a line and exits with status 1.\<close>

definition proc_fails :: proc where
  "proc_fails = \<lparr>spawn_error = None,
                 events = [ReadLine ''error: no device'', ReadLine [], WaitReturns 1]\<rparr>"

text \<open>A process that writes a line and exits with status 0.\<close>

definition proc_ok :: proc where
  "proc_ok = \<lparr>spawn_error = None, events = [ReadLine ''ok'', ReadLine [], WaitReturns 0]\<rparr>"

text \<open>A process that hangs until the timer kills it.\<close>

definition proc_hangs :: proc where
  "proc_hangs = \<lparr>spawn_error = None,
                 events = [ReadLine ''working'', PollTimeout, TimerFires, ReadLine [],
                           WaitReturns (- 9)]\<rparr>"

text \<open>A run with the key \<open>k1\<close> and a timeout, in a world whose first process hangs.\<close>

definition kw_timeout :: kwargs where
  "kw_timeout = kwargs0\<lparr>process_key := Some ''k1'', timeout := Some 5\<rparr>"

definition w_hangs :: world where
  "w_hangs = world0\<lparr>procs := [proc_hangs, proc_fails, proc_fails]\<rparr>"

text \<open>Two attempts allowed, in a world whose processes exit with status 1.\<close>

definition kw_two :: kwargs where
  "kw_two = kwargs0\<lparr>retry := Some 2\<rparr>"

definition w_two :: world where
  "w_two = world0\<lparr>procs := [proc_fails, proc_fails]\<rparr>"


text \<open>
  The key set to the default, as \<^verbatim>\<open>processRun\<close> sets it; a command that cannot be spawned;
  a process interrupted by the user during the wait; a process whose output cannot be read.
\<close>

definition kw_key :: kwargs where
  "kw_key = kwargs0\<lparr>process_key := Some []\<rparr>"

definition proc_nospawn :: proc where
  "proc_nospawn = \<lparr>spawn_error = Some (OtherException ''FileNotFoundError''), events = []\<rparr>"

definition w_nospawn :: world where
  "w_nospawn = world0\<lparr>procs := [proc_nospawn]\<rparr>"

definition proc_interrupt :: proc where
  "proc_interrupt = \<lparr>spawn_error = None,
                     events = [ReadLine ''x'', ReadLine [],
                               WaitRaises (NonException ''KeyboardInterrupt'')]\<rparr>"

definition proc_raises :: proc where
  "proc_raises = \<lparr>spawn_error = None,
                  events = [ReadLine ''x'', ReadRaises (OtherException ''OSError'')]\<rparr>"

definition w_raises :: world where
  "w_raises = world0\<lparr>procs := [proc_raises, proc_fails]\<rparr>"

text \<open>
  Runs with the keys \<open>k1\<close> and \<open>k2\<close>; a registry in which an earlier run has left a
  failure for \<open>k1\<close>, and flags for another key \<open>k9\<close>, with a process that fails and
  one that succeeds to come; a world whose first process hangs and whose next three exit
  with status 1.
\<close>

definition kw_k1 :: kwargs where
  "kw_k1 = kwargs0\<lparr>process_key := Some ''k1''\<rparr>"

definition kw_k2 :: kwargs where
  "kw_k2 = kwargs0\<lparr>process_key := Some ''k2''\<rparr>"

definition w_retry :: world where
  "w_retry = world0\<lparr>run_statuses := [''k1'' \<mapsto> 1], timeout_flags := [''k9'' \<mapsto> True],
                    killed_flags := [''k9'' \<mapsto> True], procs := [proc_fails, proc_ok]\<rparr>"

definition w_seq :: world where
  "w_seq = world0\<lparr>procs := [proc_hangs, proc_fails, proc_fails, proc_fails]\<rparr>"



section \<open>The output filter removes every matching line\<close>

lemma startswith_iff: "startswith line m \<longleftrightarrow> (\<exists>ys. line = m @ ys)"
  by (induction line m rule: startswith.induct) auto

lemma str_in_iff: "str_in m line \<longleftrightarrow> (\<exists>xs ys. line = xs @ m @ ys)"
proof (induction line)
  case Nil
  then show ?case by auto
next
  case (Cons d line)
  show ?case
  proof
    assume "str_in m (d # line)"
    then consider "startswith (d # line) m" | "str_in m line" by auto
    then show "\<exists>xs ys. d # line = xs @ m @ ys"
    proof cases
      case 1
      then obtain ys where "d # line = m @ ys" using startswith_iff by blast
      then have "d # line = [] @ m @ ys" by simp
      then show ?thesis by blast
    next
      case 2
      then obtain xs ys where "line = xs @ m @ ys" using Cons.IH by blast
      then have "d # line = (d # xs) @ m @ ys" by simp
      then show ?thesis by blast
    qed
  next
    assume "\<exists>xs ys. d # line = xs @ m @ ys"
    then obtain xs ys where e: "d # line = xs @ m @ ys" by blast
    show "str_in m (d # line)"
    proof (cases xs)
      case Nil
      then have "startswith (d # line) m" using e startswith_iff by auto
      then show ?thesis by simp
    next
      case (Cons x xs')
      then have "line = xs' @ m @ ys" using e by simp
      then have "str_in m line" using Cons.IH by blast
      then show ?thesis by simp
    qed
  qed
qed

text \<open>A line is deleted exactly when one of the strings of the list is a substring of it.\<close>

lemma matches_any_iff:
  "matches_any match_list line \<longleftrightarrow> (\<exists>m \<in> set match_list. \<exists>xs ys. line = xs @ m @ ys)"
  by (induction match_list) (auto simp: str_in_iff)

lemma del_index_last: "del_index (ys @ [y] @ suf) (int (length ys)) = Inr (ys @ suf)"
  by (simp add: del_index_def Let_def)

text \<open>
  The invariant of the loop: when the last \<open>k\<close> lines have been visited, the lines before
  them are untouched and the index to delete, if any, is the last of those.
\<close>

lemma filter_loop_inv:
  "len = k + length pre \<Longrightarrow>
   filter_loop len ml (enumerate k (rev pre)) (pre @ suf)
     = Inr (filter (\<lambda>l. \<not> matches_any ml l) pre @ suf)"
proof (induction pre arbitrary: k suf rule: rev_induct)
  case Nil
  then show ?case by simp
next
  case (snoc y ys)
  have idx: "int len - int k - 1 = int (length ys)" using snoc.prems by simp
  have len': "len = Suc k + length ys" using snoc.prems by simp
  show ?case
  proof (cases "matches_any ml y")
    case True
    have "del_index ((ys @ [y]) @ suf) (int len - int k - 1) = Inr (ys @ suf)"
      using del_index_last[of ys y suf] idx by simp
    then show ?thesis using True snoc.IH[OF len', of suf] by simp
  next
    case False
    have "filter_loop len ml (enumerate (Suc k) (rev ys)) (ys @ (y # suf))
            = Inr (filter (\<lambda>l. \<not> matches_any ml l) ys @ (y # suf))"
      using snoc.IH[OF len', of "y # suf"] .
    then show ?thesis using False by simp
  qed
qed

lemma filterOutput_eq:
  "u_filterOutput output match_list
     = Inr (filter (\<lambda>line. \<not> matches_any match_list line) output)"
  using filter_loop_inv[where len="length output" and k=0 and pre="output"
                          and ml="match_list" and suf="[]"]
  by (simp add: u_filterOutput_def)

text \<open>
  C3, as amended. \<^verbatim>\<open>_filterOutput\<close> raises nothing and removes every line that contains
  one of the filter substrings, wherever the line stands, keeping the other lines in their
  order: the \<^verbatim>\<open>break\<close> leaves the loop over the substrings, not the scan of the lines.
\<close>

theorem filterOutput_removes_every_match:
  "u_filterOutput output match_list
     = Inr (filter (\<lambda>line. \<not> matches_any match_list line) output)"
  by (rule filterOutput_eq)

text \<open>
  C3 as stated fails: with the filter \<open>DEBUG\<close>, the first line of the three below contains
  the substring and is followed by a line that does not; the specification keeps it, the
  code removes it.
\<close>

theorem filterOutput_keeps_no_earlier_match:
  "u_filterOutput [''DEBUG a'', ''ok'', ''DEBUG b''] [''DEBUG''] = Inr [''ok'']
   \<and> spec_filter_trailing [''DEBUG a'', ''ok'', ''DEBUG b''] [''DEBUG''] = [''DEBUG a'', ''ok'']"
  by (simp add: u_filterOutput_def spec_filter_trailing_def del_index_def enumerate_eq_zip upt_rec)

section \<open>The watchdog\<close>

text \<open>Once the watchdog thread has left its loop, only \<^verbatim>\<open>main\<close> runs.\<close>

lemma runWatchdog_dead: "runWatchdog wd sc False s n = (main_alone sc s, n)"
proof (induction sc arbitrary: s)
  case Nil
  then show ?case by simp
next
  case (Cons x sc)
  then show ?case by (cases x) simp_all
qed

text \<open>While the condition holds at no poll, the thread does nothing.\<close>

lemma runWatchdog_no_trigger:
  "\<not> becomes_true wd sc s \<Longrightarrow> runWatchdog wd sc True s n = (main_alone sc s, n)"
proof (induction sc arbitrary: s)
  case Nil
  then show ?case by simp
next
  case (Cons x sc)
  then show ?case by (cases x) (simp_all split: if_splits)
qed

lemma runWatchdog_until_trigger:
  "once wd \<Longrightarrow> \<not> becomes_true wd pre s \<Longrightarrow> condition wd (main_alone pre s) \<Longrightarrow>
   runWatchdog wd (pre @ Poll # rest) True s n
     = (main_alone rest (action wd (main_alone pre s)), Suc n)"
proof (induction pre arbitrary: s)
  case Nil
  then show ?case by (simp add: runWatchdog_dead)
next
  case (Cons x pre)
  then show ?case by (cases x) (simp_all split: if_splits)
qed

text \<open>The first poll at which the condition holds.\<close>

lemma becomes_true_first:
  "becomes_true wd sc s \<Longrightarrow>
   \<exists>pre rest. sc = pre @ Poll # rest \<and> \<not> becomes_true wd pre s
              \<and> condition wd (main_alone pre s)"
proof (induction sc arbitrary: s)
  case Nil
  then show ?case by simp
next
  case (Cons x sc)
  show ?case
  proof (cases x)
    case (MainStep f)
    then have "becomes_true wd sc (f s)" using Cons.prems by simp
    then obtain pre rest where
      p: "sc = pre @ Poll # rest" "\<not> becomes_true wd pre (f s)"
         "condition wd (main_alone pre (f s))"
      using Cons.IH by blast
    have "x # sc = (MainStep f # pre) @ Poll # rest" using p(1) MainStep by simp
    moreover have "\<not> becomes_true wd (MainStep f # pre) s" using p(2) by simp
    moreover have "condition wd (main_alone (MainStep f # pre) s)" using p(3) by simp
    ultimately show ?thesis by blast
  next
    case Poll
    show ?thesis
    proof (cases "condition wd s")
      case True
      have "x # sc = [] @ Poll # sc" using Poll by simp
      moreover have "\<not> becomes_true wd [] s" by simp
      moreover have "condition wd (main_alone [] s)" using True by simp
      ultimately show ?thesis by blast
    next
      case False
      then have "becomes_true wd sc s" using Cons.prems Poll by simp
      then obtain pre rest where
        p: "sc = pre @ Poll # rest" "\<not> becomes_true wd pre s"
           "condition wd (main_alone pre s)"
        using Cons.IH by blast
      have "x # sc = (Poll # pre) @ Poll # rest" using p(1) Poll by simp
      moreover have "\<not> becomes_true wd (Poll # pre) s" using p(2) False by simp
      moreover have "condition wd (main_alone (Poll # pre) s)" using p(3) by simp
      ultimately show ?thesis by blast
    qed
  qed
qed

text \<open>
  C9, as amended. For a \<^verbatim>\<open>WatchDog\<close> with \<^verbatim>\<open>once = True\<close> whose \<^verbatim>\<open>main\<close> returns:
  if the condition holds at none of the polls that the watchdog thread makes while
  \<^verbatim>\<open>main\<close> runs, the action is not called and \<^verbatim>\<open>start\<close> returns the value of
  \<^verbatim>\<open>main\<close>, run alone; if it holds at one of them, the action is called exactly once, at
  the first such poll, the watchdog thread has stopped after it (whatever \<^verbatim>\<open>main\<close> still
  does, later polls included, the rest of the run is the steps of \<^verbatim>\<open>main\<close> alone), and
  \<^verbatim>\<open>start\<close> returns the value of \<^verbatim>\<open>main\<close>.
\<close>

theorem watchdog_once_triggers_once:
  assumes "once wd" and "main wd args = (sc, Returns ret)"
  shows "(\<not> becomes_true wd sc s \<longrightarrow>
            start wd args s = (Inr (ret (main_alone sc s)), main_alone sc s, 0))
       \<and> (becomes_true wd sc s \<longrightarrow>
            (\<exists>pre rest. sc = pre @ Poll # rest \<and> \<not> becomes_true wd pre s
                \<and> condition wd (main_alone pre s)
                \<and> start wd args s
                    = (Inr (ret (main_alone rest (action wd (main_alone pre s)))),
                       main_alone rest (action wd (main_alone pre s)), 1)))
       \<and> (\<forall>pre rest. sc = pre @ Poll # rest \<and> \<not> becomes_true wd pre s
              \<and> condition wd (main_alone pre s)
            \<longrightarrow> start wd args s
                  = (Inr (ret (main_alone rest (action wd (main_alone pre s)))),
                     main_alone rest (action wd (main_alone pre s)), 1))
       \<and> snd (snd (start wd args s)) = (if becomes_true wd sc s then 1 else 0)"
proof -
  have none: "start wd args s = (Inr (ret (main_alone sc s)), main_alone sc s, 0)"
    if "\<not> becomes_true wd sc s"
    using runWatchdog_no_trigger[OF that, of 0] assms(2) by (simp add: start_def)
  have third: "start wd args s
                  = (Inr (ret (main_alone rest (action wd (main_alone pre s)))),
                     main_alone rest (action wd (main_alone pre s)), 1)"
    if "sc = pre @ Poll # rest" "\<not> becomes_true wd pre s" "condition wd (main_alone pre s)"
    for pre rest
    using runWatchdog_until_trigger[OF assms(1) that(2) that(3), of rest 0] that(1) assms(2)
    by (simp add: start_def)
  have some: "\<exists>pre rest. sc = pre @ Poll # rest \<and> \<not> becomes_true wd pre s
                \<and> condition wd (main_alone pre s)
                \<and> start wd args s
                    = (Inr (ret (main_alone rest (action wd (main_alone pre s)))),
                       main_alone rest (action wd (main_alone pre s)), 1)"
    if "becomes_true wd sc s"
    using becomes_true_first[OF that] third by blast
  have cnt: "snd (snd (start wd args s)) = (if becomes_true wd sc s then 1 else 0)"
  proof (cases "becomes_true wd sc s")
    case True
    then show ?thesis using some by auto
  next
    case False
    then show ?thesis using none by simp
  qed
  show ?thesis using none some third cnt by blast
qed

text \<open>
  The condition becomes true at the second of four polls: one call of the action, and the
  two polls after it trigger nothing. And with a condition that never holds, no call.
\<close>

theorem watchdog_once_witness:
  "once wd_example
   \<and> main wd_example () = ([MainStep Suc, Poll, MainStep Suc, Poll, MainStep Suc, Poll,
                             MainStep Suc, Poll, MainStep Suc], Returns (\<lambda>s. s))
   \<and> becomes_true wd_example (fst (main wd_example ())) 0
   \<and> start wd_example () 0 = (Inr 105, 105, 1)
   \<and> \<not> becomes_true (wd_example\<lparr>condition := (\<lambda>s. False)\<rparr>) (fst (main wd_example ())) 0
   \<and> start (wd_example\<lparr>condition := (\<lambda>s. False)\<rparr>) () 0 = (Inr 5, 5, 0)"
proof -
  have o: "once wd_example" "once (wd_example\<lparr>condition := (\<lambda>s. False)\<rparr>)"
    by (simp_all add: wd_example_def)
  have m: "main wd_example () = ([MainStep Suc, Poll, MainStep Suc, Poll, MainStep Suc, Poll,
                             MainStep Suc, Poll, MainStep Suc], Returns (\<lambda>s. s))"
    "main (wd_example\<lparr>condition := (\<lambda>s. False)\<rparr>) ()
       = ([MainStep Suc, Poll, MainStep Suc, Poll, MainStep Suc, Poll,
                             MainStep Suc, Poll, MainStep Suc], Returns (\<lambda>s. s))"
    by (simp_all add: wd_example_def)
  have b: "becomes_true wd_example (fst (main wd_example ())) 0"
    "\<not> becomes_true (wd_example\<lparr>condition := (\<lambda>s. False)\<rparr>) (fst (main wd_example ())) 0"
    by (simp_all add: wd_example_def)
  have s1: "start wd_example () 0 = (Inr 105, 105, 1)"
    using watchdog_once_triggers_once[OF o(1) m(1), of 0] b(1)
    by (simp add: wd_example_def start_def)
  have s2: "start (wd_example\<lparr>condition := (\<lambda>s. False)\<rparr>) () 0 = (Inr 5, 5, 0)"
    using watchdog_once_triggers_once[OF o(2) m(2), of 0] b(2) m(1) by simp
  show ?thesis using o(1) m(1) b s1 s2 by simp
qed

text \<open>
  C9 as stated fails. The condition can hold while \<^verbatim>\<open>main\<close> runs and the action not be
  called: the thread evaluates the condition only when it polls, and \<^verbatim>\<open>main\<close> may be over
  before the next poll. And when \<^verbatim>\<open>main\<close> raises, \<^verbatim>\<open>start\<close> returns no value and the
  thread is not stopped: the action is called later, though the condition never held while
  \<^verbatim>\<open>main\<close> ran.
\<close>

theorem watchdog_misses_condition_between_polls:
  "once wd_late \<and> holds_during wd_late (fst (main wd_late ())) 0
   \<and> start wd_late () 0 = (Inr 2, 2, 0)
   \<and> once wd_raises \<and> \<not> holds_during wd_raises (fst (main wd_raises ())) 0
   \<and> start wd_raises () 0 = (Inl (OtherException ''RuntimeError''), 111, 1)"
  by (simp add: wd_late_def wd_raises_def start_def)

section \<open>What the operations leave alone\<close>

declare processRun_loop.simps [simp del]

lemmas world_ops = effect_def log_info_def log_error_def setRunStatus_def setRunTimeout_def
  setRunKilled_def u_kill_def timer_fires_def kill_request_def

lemma attempts_ops [simp]:
  "attempts (effect e w) = attempts w" "attempts (log_info m w) = attempts w"
  "attempts (log_error m w) = attempts w" "attempts (setRunStatus st ov key w) = attempts w"
  "attempts (setRunTimeout b key w) = attempts w" "attempts (setRunKilled b key w) = attempts w"
  "attempts (timer_fires w) = attempts w" "attempts (kill_request key w) = attempts w"
  by (simp_all add: world_ops split: option.splits prod.splits)

lemma procs_ops [simp]:
  "procs (effect e w) = procs w" "procs (log_info m w) = procs w"
  "procs (log_error m w) = procs w" "procs (setRunStatus st ov key w) = procs w"
  "procs (setRunTimeout b key w) = procs w" "procs (setRunKilled b key w) = procs w"
  "procs (timer_fires w) = procs w" "procs (kill_request key w) = procs w"
  by (simp_all add: world_ops split: option.splits prod.splits)

lemma getOutput_loop_ghost:
  "getOutput_loop pats key lines ps w = Some (out, ps', w') \<Longrightarrow>
   attempts w' = attempts w \<and> procs w' = procs w"
  by (induction pats key lines ps w rule: getOutput_loop.induct)
     (auto simp: Let_def split: if_splits)

lemma wait_loop_ghost:
  "wait_loop ps w = Some (out, ps', w') \<Longrightarrow> attempts w' = attempts w \<and> procs w' = procs w"
  by (induction ps w rule: wait_loop.induct) (auto split: if_splits)

lemma drain_ghost: "drain ps w = (ps', w') \<Longrightarrow> attempts w' = attempts w \<and> procs w' = procs w"
  by (induction ps w rule: drain.induct) auto

lemma dump_output_ghost:
  "dump_output kw output w = (out, w') \<Longrightarrow> attempts w' = attempts w \<and> procs w' = procs w"
  by (auto simp: dump_output_def split: sum.splits option.splits)

lemma finish_wait_ghost:
  "finish_wait kw t pkey output st w = (out, w') \<Longrightarrow>
   attempts w' = attempts w \<and> procs w' = procs w"
  by (auto simp: finish_wait_def Let_def split: option.splits if_splits prod.splits sum.splits
           dest!: dump_output_ghost)

lemma processWait_body_ghost:
  "processWait_body pt kw w = Some (out, w') \<Longrightarrow>
   attempts w' = attempts w \<and> procs w' = procs w"
  by (auto simp: processWait_body_def u_getOutput_def Let_def
           split: option.splits if_splits prod.splits sum.splits
           dest!: getOutput_loop_ghost wait_loop_ghost drain_ghost finish_wait_ghost)

lemma processWait_ghost:
  "processWait pt kw w = Some (out, w') \<Longrightarrow> attempts w' = attempts w \<and> procs w' = procs w"
  by (auto simp: processWait_def split: option.splits prod.splits sum.splits exc.splits
           dest!: processWait_body_ghost)

lemma processRun_body_attempts:
  "processRun_body args kw w = Some (out, w') \<Longrightarrow> attempts w' = attempts w"
  by (auto simp: processRun_body_def u_Popen_def Let_def
           split: option.splits if_splits prod.splits sum.splits list.splits
           dest!: processWait_ghost)

text \<open>Each call of \<^verbatim>\<open>_processRun\<close> that returns or raises is counted once.\<close>

lemma u_processRun_attempts:
  "u_processRun args kw w = Some (out, w') \<Longrightarrow> attempts w' = Suc (attempts w)"
  by (auto simp: u_processRun_def Let_def after_handler_def
           split: option.splits if_splits prod.splits sum.splits exc.splits
           dest!: processRun_body_attempts)

lemma attempts_before_attempt [simp]: "attempts (before_attempt kw w) = attempts w"
  by (simp add: before_attempt_def Let_def split: option.splits)

text \<open>The definitions to unfold when a call is evaluated on concrete arguments.\<close>

lemmas attempt_defs = u_processRun_def processRun_body_def u_Popen_def processWait_def
  processWait_body_def u_getOutput_def finish_wait_def dump_output_def after_handler_def
  before_attempt_def key_of_def default_key_def Let_def rstrip_def isspace_def

lemmas registry_defs = getRunStatus_def getRunTimeout_def getRunKilled_def

lemmas example_defs = world0_def kwargs0_def cmd_ex_def proc_fails_def proc_hangs_def proc_ok_def

section \<open>The retry loop\<close>

text \<open>
  C2. In any round of the loop of \<^verbatim>\<open>processRun\<close>, whatever the retry count still is: if
  the attempt returns \<open>r\<close> and \<^verbatim>\<open>getRunTimeout()\<close> is then true, the call returns \<open>r\<close>
  at once, having added only the log line of the outcome: no further attempt is made.
\<close>

theorem timeout_stops_retries:
  assumes "0 < retryCount"
    and "u_processRun args kw (before_attempt kw w) = Some (Inr r, w')"
    and "getRunTimeout [] w'"
  shows "processRun_loop args kw retryCount ret w
           = Some (Inr r,
                   if getRunStatus (key_of kw) w' = 0
                   then (if silent kw then w'
                         else log_info (ProcessSucceeded (join '' '' args)) w')
                   else log_info (ProcessFailed (join '' '' args)) w')
         \<and> (\<exists>w''. processRun_loop args kw retryCount ret w = Some (Inr r, w'')
                   \<and> attempts w'' = Suc (attempts w))"
proof -
  have a: "attempts w' = Suc (attempts w)"
    using u_processRun_attempts[OF assms(2)] by simp
  have l: "processRun_loop args kw retryCount ret w
           = Some (Inr r,
                   if getRunStatus (key_of kw) w' = 0
                   then (if silent kw then w'
                         else log_info (ProcessSucceeded (join '' '' args)) w')
                   else log_info (ProcessFailed (join '' '' args)) w')"
    using assms by (subst processRun_loop.simps) simp
  show ?thesis using l a by simp
qed

text \<open>
  The first process hangs and the timer kills it: of three attempts allowed, one is made.
\<close>

theorem timeout_stops_retries_witness:
  "(0::int) < 3
   \<and> (\<exists>w'. u_processRun cmd_ex kw_timeout (before_attempt kw_timeout w_hangs)
              = Some (Inr (Lines [], Some ''working''), w')
          \<and> getRunTimeout [] w'
          \<and> processRun_loop cmd_ex kw_timeout 3 None w_hangs
              = Some (Inr (Lines [], Some ''working''),
                      log_info (ProcessFailed (join '' '' cmd_ex)) w'))"
proof -
  obtain w' where a: "u_processRun cmd_ex kw_timeout (before_attempt kw_timeout w_hangs)
              = Some (Inr (Lines [], Some ''working''), w')"
     and t: "getRunTimeout [] w'" and s: "getRunStatus (key_of kw_timeout) w' \<noteq> 0"
    by (simp add: attempt_defs registry_defs world_ops example_defs kw_timeout_def w_hangs_def)
  have z: "(0::int) < 3" by simp
  show ?thesis using timeout_stops_retries[OF z a t, of None] a t s by auto
qed

text \<open>
  The loop, when every attempt fails with no timeout: it makes as many attempts as the
  retry count and ends with the result of the last, or with \<^verbatim>\<open>ret\<close> as it was when no
  attempt is made.
\<close>

lemma loop_all_fail:
  "length outs = nat n \<Longrightarrow> 0 \<le> n \<Longrightarrow> all_attempts_fail args kw n w outs \<Longrightarrow>
   processRun_loop args kw n ret w
     = (if outs = []
        then (case ret of
                None \<Rightarrow> Some (Inl (OtherException ''UnboundLocalError''), w)
              | Some r \<Rightarrow> Some (Inr r, w))
        else Some (Inr (fst (last outs)),
                   log_info (ProcessFailedWillRetry 0 (join '' '' args)) (snd (last outs))))"
proof (induction outs arbitrary: n ret w)
  case Nil
  then show ?case by (subst processRun_loop.simps) simp
next
  case (Cons a outs)
  obtain r w' where a: "a = (r, w')" by (cases a)
  have n: "0 < n" using Cons.prems(1,2) by (cases "n = 0") auto
  have len: "length outs = nat (n - 1)" using Cons.prems(1) n by auto
  have att: "u_processRun args kw (before_attempt kw w) = Some (Inr r, w')"
    and st: "getRunStatus (key_of kw) w' \<noteq> 0" and to: "\<not> getRunTimeout [] w'"
    and rest: "all_attempts_fail args kw (n - 1)
                 (log_info (ProcessFailedWillRetry (n - 1) (join '' '' args)) w') outs"
    using Cons.prems(3) a by simp_all
  have step: "processRun_loop args kw n ret w
                = processRun_loop args kw (n - 1) (Some r)
                    (log_info (ProcessFailedWillRetry (n - 1) (join '' '' args)) w')"
    using n att st to by (subst processRun_loop.simps) simp
  have ih: "processRun_loop args kw (n - 1) (Some r)
                    (log_info (ProcessFailedWillRetry (n - 1) (join '' '' args)) w')
     = (if outs = []
        then Some (Inr r, log_info (ProcessFailedWillRetry (n - 1) (join '' '' args)) w')
        else Some (Inr (fst (last outs)),
                   log_info (ProcessFailedWillRetry 0 (join '' '' args)) (snd (last outs))))"
    using Cons.IH[OF len _ rest, of "Some r"] n by simp
  show ?case
  proof (cases "outs = []")
    case True
    then have "n = 1" using len n by simp
    then show ?thesis using step ih True a by simp
  next
    case False
    then show ?thesis using step ih a by simp
  qed
qed

lemma all_fail_attempts:
  "all_attempts_fail args kw n w outs \<Longrightarrow> outs \<noteq> [] \<Longrightarrow>
   attempts (snd (last outs)) = attempts w + length outs"
proof (induction outs arbitrary: n w)
  case Nil
  then show ?case by simp
next
  case (Cons a outs)
  obtain r w' where a: "a = (r, w')" by (cases a)
  have att: "u_processRun args kw (before_attempt kw w) = Some (Inr r, w')"
    and rest: "all_attempts_fail args kw (n - 1)
                 (log_info (ProcessFailedWillRetry (n - 1) (join '' '' args)) w') outs"
    using Cons.prems(1) a by simp_all
  have c: "attempts w' = Suc (attempts w)" using u_processRun_attempts[OF att] by simp
  show ?case
  proof (cases "outs = []")
    case True
    then show ?thesis using a c by simp
  next
    case False
    then show ?thesis using Cons.IH[OF rest False] a c by simp
  qed
qed

lemma retry_default_key [simp]: "retry (default_key kw) = retry kw"
  by (simp add: default_key_def)

text \<open>
  C1, as amended. With \<^verbatim>\<open>retry = N\<close> (3 when absent) and \<open>N \<ge> 1\<close>: if each attempt of
  the call ends with a failing run status and with the timed-out flag not set,
  \<^verbatim>\<open>processRun\<close> calls \<^verbatim>\<open>_processRun\<close> exactly \<open>N\<close> times and returns the result of the
  last attempt.
\<close>

theorem all_attempts_fail_N_attempts:
  assumes "1 \<le> N"
    and "(case retry kw of None \<Rightarrow> 3 | Some n \<Rightarrow> n) = N"
    and "length outs = nat N"
    and "all_attempts_fail args (default_key kw) N w outs"
  shows "processRun args kw w
           = Some (Inr (fst (last outs)),
                   log_info (ProcessFailedWillRetry 0 (join '' '' args)) (snd (last outs)))
         \<and> attempts (snd (last outs)) = attempts w + nat N"
proof -
  have ne: "outs \<noteq> []" using assms(1,3) by auto
  have z: "0 \<le> N" using assms(1) by simp
  have "processRun args kw w = processRun_loop args (default_key kw) N None w"
    using assms(2) by (simp add: processRun_def Let_def)
  then have l: "processRun args kw w
           = Some (Inr (fst (last outs)),
                   log_info (ProcessFailedWillRetry 0 (join '' '' args)) (snd (last outs)))"
    using loop_all_fail[OF assms(3) z assms(4), of None] ne by simp
  show ?thesis using l all_fail_attempts[OF assms(4) ne] assms(3) by simp
qed

text \<open>Two attempts allowed, two processes that exit with status 1: two attempts.\<close>

theorem all_attempts_fail_witness:
  "(1::int) \<le> 2
   \<and> (\<exists>outs. length outs = 2
         \<and> all_attempts_fail cmd_ex (default_key kw_two) 2 w_two outs
         \<and> fst (last outs) = (Lines [], Some ''error: no device'')
         \<and> processRun cmd_ex kw_two w_two
             = Some (Inr (Lines [], Some ''error: no device''),
                     log_info (ProcessFailedWillRetry 0 (join '' '' cmd_ex)) (snd (last outs)))
         \<and> attempts (snd (last outs)) = 2)"
proof -
  obtain r1 w1 r2 w2 where
    f: "all_attempts_fail cmd_ex (default_key kw_two) 2 w_two [(r1, w1), (r2, w2)]"
    and r: "r2 = (Lines [], Some ''error: no device'')"
    by (simp add: attempt_defs registry_defs world_ops example_defs kw_two_def w_two_def)
  have one: "(1::int) \<le> 2" by simp
  have rt: "(case retry kw_two of None \<Rightarrow> 3 | Some n \<Rightarrow> n) = 2" by (simp add: kw_two_def)
  have len: "length [(r1, w1), (r2, w2)] = nat 2" by simp
  have a0: "attempts w_two = 0" by (simp add: w_two_def world0_def)
  show ?thesis
    using all_attempts_fail_N_attempts[OF one rt len f] f r a0
    by (intro conjI exI[of _ "[(r1, w1), (r2, w2)]"]) simp_all
qed

text \<open>
  C1 as stated fails for \<open>N = 0\<close>: no attempt is made, there is no last result, and
  \<^verbatim>\<open>return ret\<close> raises \<^verbatim>\<open>UnboundLocalError\<close>.
\<close>

theorem no_retries_raises:
  "all_attempts_fail cmd_ex (default_key (kwargs0\<lparr>retry := Some 0\<rparr>)) 0 world0 []
   \<and> processRun cmd_ex (kwargs0\<lparr>retry := Some 0\<rparr>) world0
       = Some (Inl (OtherException ''UnboundLocalError''), world0)"
  by (simp add: processRun_def processRun_loop.simps)

section \<open>Reading and waiting\<close>

lemma getRunKilled_ops [simp]:
  "getRunKilled k (effect e w) = getRunKilled k w"
  "getRunKilled k (log_info m w) = getRunKilled k w"
  "getRunKilled k (log_error m w) = getRunKilled k w"
  "getRunKilled k (setRunStatus st ov key w) = getRunKilled k w"
  "getRunKilled k (setRunTimeout b key w) = getRunKilled k w"
  "getRunKilled k (timer_fires w) = getRunKilled k w"
  "getRunKilled k (w\<lparr>timer := tm\<rparr>) = getRunKilled k w"
  "getRunKilled k (kill_request k w)"
  by (simp_all add: getRunKilled_def world_ops split: option.splits prod.splits)







lemma pattern_list_eq:
  "u_getOutput ps (patterns kw) key w = getOutput_loop (pattern_list kw) key [] ps w"
  by (simp add: u_getOutput_def pattern_list_def Let_def)

text \<open>The dump never raises, and the end of \<^verbatim>\<open>processWait\<close> with status 0 succeeds.\<close>

lemma dump_output_eq:
  "dump_output kw output w
     = (Inr (case filter_list kw of None \<Rightarrow> output
             | Some ml \<Rightarrow> filter (\<lambda>line. \<not> matches_any ml line) output),
        log_info (ProgramOutput (join [CHR 0x0A]
          (case filter_list kw of None \<Rightarrow> output
           | Some ml \<Rightarrow> filter (\<lambda>line. \<not> matches_any ml line) output))) w)"
  by (simp add: dump_output_def filterOutput_eq split: option.splits)

lemma getRunStatus_ops [simp]:
  "getRunStatus k (effect e w) = getRunStatus k w"
  "getRunStatus k (log_info m w) = getRunStatus k w"
  "getRunStatus k (log_error m w) = getRunStatus k w"
  "getRunStatus k (setRunTimeout b key w) = getRunStatus k w"
  "getRunStatus k (kill_request key w) = getRunStatus k w"
  "getRunStatus k (w\<lparr>timer := tm\<rparr>) = getRunStatus k w"
  "getRunStatus k (w\<lparr>attempts := a\<rparr>) = getRunStatus k w"
  "getRunStatus k (w\<lparr>procs := p\<rparr>) = getRunStatus k w"
  by (simp_all add: getRunStatus_def world_ops)

lemma trace_effect [simp]: "trace (effect e w) = trace w @ [e]"
  by (simp add: effect_def)

lemma trace_log_info [simp]: "trace (log_info m w) = trace w @ [LogInfo m]"
  by (simp add: log_info_def)

section \<open>Early stop on a pattern\<close>




section \<open>Exceptions\<close>

lemma or_one_neq_zero: "(x::int) OR 1 \<noteq> 0"
  by (simp add: or_eq_0_iff)

lemma getRunStatus_set_failure: "getRunStatus key (setRunStatus 1 False key w) \<noteq> 0"
  by (simp add: getRunStatus_def setRunStatus_def or_one_neq_zero)

text \<open>The handlers of \<^verbatim>\<open>processWait\<close> turn an instance of \<^verbatim>\<open>Exception\<close> into a result.\<close>

lemma processWait_handles:
  "processWait_body pt kw w = Some (Inl e, w1) \<Longrightarrow> is_Exception e \<Longrightarrow>
   processWait pt kw w
     = Some (Inr (Lines [], Some (error_string e)), log_error (wait_handler_msg e) w1)"
  by (cases e) (simp_all add: processWait_def)

lemma processWait_raises:
  "processWait pt kw w = Some (Inl e, w') \<Longrightarrow> \<not> is_Exception e"
  by (auto simp: processWait_def split: option.splits prod.splits sum.splits exc.splits)

lemma u_processRun_raises:
  "process_key kw = Some key \<Longrightarrow> u_processRun args kw w = Some (Inl e, w') \<Longrightarrow>
   \<not> is_Exception e"
  by (auto simp: u_processRun_def after_handler_def Let_def
           split: option.splits prod.splits sum.splits exc.splits if_splits)

lemma u_processRun_spawn_error:
  "process_key kw = Some key \<Longrightarrow> procs w = p # rest \<Longrightarrow> spawn_error p = Some e \<Longrightarrow>
   is_Exception e \<Longrightarrow>
   \<exists>w'. u_processRun args kw w = Some (Inr (Lines [], Some (error_string e)), w')
        \<and> getRunStatus key w' \<noteq> 0"
  by (cases e)
     (simp_all add: u_processRun_def processRun_body_def u_Popen_def after_handler_def Let_def
        getRunStatus_set_failure)

text \<open>
  When the spawn succeeds in a blocking run, \<^verbatim>\<open>_processRun\<close> is \<^verbatim>\<open>processWait\<close> in the
  world \<open>spawned\<close>.
\<close>

lemma u_processRun_spawned:
  assumes "process_key kw = Some key" and "procs w = p # rest" and "spawn_error p = None"
    and "\<not> non_blocking kw" and "\<not> async kw"
  shows "u_processRun args kw w = processWait (events p, has_timer kw) kw (spawned args kw w)"
proof -
  have b: "processRun_body args kw
             (if \<not> silent kw then log_info (Running (join '' '' args))
                                   (w\<lparr>attempts := Suc (attempts w)\<rparr>)
              else w\<lparr>attempts := Suc (attempts w)\<rparr>)
           = processWait (events p, has_timer kw) kw (spawned args kw w)"
    using assms
    by (simp add: processRun_body_def u_Popen_def spawned_def has_timer_def key_of_def Let_def
          log_info_def effect_def split: option.splits)
  show ?thesis
  proof (cases "processWait (events p, has_timer kw) kw (spawned args kw w)")
    case None
    then show ?thesis using b by (simp add: u_processRun_def Let_def)
  next
    case (Some a)
    obtain out w2 where a: "a = (out, w2)" by (cases a)
    show ?thesis
    proof (cases out)
      case (Inl e)
      then have "\<not> is_Exception e" using processWait_raises Some a by blast
      then obtain cls where "e = NonException cls" by (cases e) simp_all
      then show ?thesis using b Some a Inl by (simp add: u_processRun_def Let_def)
    next
      case (Inr r)
      then show ?thesis using b Some a by (simp add: u_processRun_def Let_def)
    qed
  qed
qed

text \<open>The retry loop raises no instance of \<^verbatim>\<open>Exception\<close> once \<^verbatim>\<open>ret\<close> is bound or a round is due.\<close>

lemma processRun_loop_raises:
  "processRun_loop args kw n ret w = Some (Inl e, w') \<Longrightarrow> process_key kw = Some key \<Longrightarrow>
   0 < n \<or> ret \<noteq> None \<Longrightarrow> \<not> is_Exception e"
proof (induction args kw n ret w rule: processRun_loop.induct)
  case (1 args kw retryCount ret w)
  show ?case
  proof (cases "0 < retryCount")
    case False
    then show ?thesis using "1.prems" by (auto simp: processRun_loop.simps split: option.splits)
  next
    case True
    show ?thesis
    proof (cases "u_processRun args kw (before_attempt kw w)")
      case None
      then show ?thesis using "1.prems"(1) True by (simp add: processRun_loop.simps)
    next
      case (Some a)
      obtain out w1 where a: "a = (out, w1)" by (cases a)
      show ?thesis
      proof (cases out)
        case (Inl e1)
        then have "e = e1" using "1.prems"(1) True Some a by (simp add: processRun_loop.simps)
        then show ?thesis using u_processRun_raises[OF "1.prems"(2)] Some a Inl by blast
      next
        case (Inr r)
        show ?thesis
        proof (cases "getRunStatus (key_of kw) w1 = 0 \<or> getRunTimeout [] w1")
          case True
          then show ?thesis
            using "1.prems"(1) \<open>0 < retryCount\<close> Some a Inr
            by (auto simp: processRun_loop.simps split: if_splits)
        next
          case False
          then have nz: "getRunStatus (key_of kw) w1 \<noteq> 0" and nt: "\<not> getRunTimeout [] w1"
            by simp_all
          have "processRun_loop args kw (retryCount - 1) (Some r)
                  (log_info (ProcessFailedWillRetry (retryCount - 1) (join '' '' args)) w1)
                = Some (Inl e, w')"
            using "1.prems"(1) \<open>0 < retryCount\<close> Some a Inr nz nt
            by (simp add: processRun_loop.simps)
          then show ?thesis
            using "1.IH"[OF \<open>0 < retryCount\<close> Some _ _ nz nt, of "Inr r" r] a Inr "1.prems"(2)
            by simp
        qed
      qed
    qed
  qed
qed

text \<open>
  C6, as amended. For every command and arguments, the process key being set as
  \<^verbatim>\<open>processRun\<close> sets it: an attempt propagates no instance of \<^verbatim>\<open>Exception\<close>; when the
  spawn raises one, the attempt returns the empty list with the error string and a failing
  run status; when one is raised inside \<^verbatim>\<open>processWait\<close>, \<^verbatim>\<open>processWait\<close> returns the
  empty list with the error string; and with a retry count of 1 or more the top-level call
  raises no instance of \<^verbatim>\<open>Exception\<close> either.
\<close>

theorem attempt_propagates_no_Exception:
  assumes "process_key kw = Some key"
  shows "(\<forall>e w'. u_processRun args kw w = Some (Inl e, w') \<longrightarrow> \<not> is_Exception e)
       \<and> (\<forall>p rest e. procs w = p # rest \<and> spawn_error p = Some e \<and> is_Exception e \<longrightarrow>
             (\<exists>w'. u_processRun args kw w = Some (Inr (Lines [], Some (error_string e)), w')
                  \<and> getRunStatus key w' \<noteq> 0))
       \<and> (\<forall>pt w0 e w1. processWait_body pt kw w0 = Some (Inl e, w1) \<and> is_Exception e \<longrightarrow>
             processWait pt kw w0
               = Some (Inr (Lines [], Some (error_string e)), log_error (wait_handler_msg e) w1))
       \<and> (\<forall>kw0 e w'. 1 \<le> (case retry kw0 of None \<Rightarrow> 3 | Some n \<Rightarrow> n)
                      \<and> processRun args kw0 w = Some (Inl e, w') \<longrightarrow> \<not> is_Exception e)"
proof -
  have top: "\<not> is_Exception e"
    if "1 \<le> (case retry kw0 of None \<Rightarrow> 3 | Some n \<Rightarrow> n)"
      and "processRun args kw0 w = Some (Inl e, w')" for kw0 e w'
  proof -
    obtain k where k: "process_key (default_key kw0) = Some k"
      by (cases "process_key kw0") (auto simp: default_key_def)
    have r: "retry (default_key kw0) = retry kw0" by (simp add: default_key_def)
    show ?thesis
      using processRun_loop_raises[OF _ k, of args "case retry kw0 of None \<Rightarrow> 3 | Some n \<Rightarrow> n"
              None w e w'] that r
      by (simp add: processRun_def Let_def)
  qed
  show ?thesis
    using u_processRun_raises[OF assms] u_processRun_spawn_error[OF assms] processWait_handles top
    by blast
qed
text \<open>The executable is not found: the attempt returns the error and a failing status.\<close>

theorem attempt_propagates_no_Exception_witness:
  "process_key kw_key = Some []
   \<and> procs w_nospawn = [proc_nospawn] \<and> spawn_error proc_nospawn = Some (OtherException ''FileNotFoundError'')
   \<and> is_Exception (OtherException ''FileNotFoundError'')
   \<and> (\<exists>w'. u_processRun cmd_ex kw_key w_nospawn
               = Some (Inr (Lines [], Some (class_repr ''FileNotFoundError'')), w')
           \<and> getRunStatus [] w' \<noteq> 0)"
proof -
  have k: "process_key kw_key = Some []" by (simp add: kw_key_def)
  have p: "procs w_nospawn = [proc_nospawn]" by (simp add: w_nospawn_def)
  have s: "spawn_error proc_nospawn = Some (OtherException ''FileNotFoundError'')"
    by (simp add: proc_nospawn_def)
  have e: "is_Exception (OtherException ''FileNotFoundError'')" by simp
  show ?thesis
    using attempt_propagates_no_Exception[OF k, of cmd_ex w_nospawn] k p s e by fastforce
qed

text \<open>
  C6 as stated fails. An exception outside \<^verbatim>\<open>Exception\<close>, here the interrupt of the user
  during the wait, passes both handlers and leaves \<^verbatim>\<open>_processRun\<close>. And with
  \<^verbatim>\<open>retry = 0\<close> the top-level call raises \<^verbatim>\<open>UnboundLocalError\<close>.
\<close>

theorem interrupt_propagates:
  "(\<exists>w'. u_processRun cmd_ex kw_key (world0\<lparr>procs := [proc_interrupt]\<rparr>)
            = Some (Inl (NonException ''KeyboardInterrupt''), w'))
   \<and> (\<exists>w'. processRun cmd_ex (kwargs0\<lparr>retry := Some 0\<rparr>) world0
              = Some (Inl (OtherException ''UnboundLocalError''), w'))"
  by (simp add: attempt_defs registry_defs world_ops example_defs kw_key_def proc_interrupt_def
        processRun_def processRun_loop.simps)
section \<open>An exception inside the wait\<close>

lemma run_statuses_ops [simp]:
  "run_statuses (effect e w) = run_statuses w"
  "run_statuses (log_info m w) = run_statuses w"
  "run_statuses (log_error m w) = run_statuses w"
  "run_statuses (setRunTimeout b key w) = run_statuses w"
  "run_statuses (kill_request key w) = run_statuses w"
  by (simp_all add: world_ops)

text \<open>While no timer fires, reading and waiting leave the run statuses as they are.\<close>

lemma getOutput_loop_statuses:
  "TimerFires \<notin> set ps \<Longrightarrow> getOutput_loop pats key lines ps w = Some (out, ps', w') \<Longrightarrow>
   run_statuses w' = run_statuses w \<and> TimerFires \<notin> set ps'"
  by (induction pats key lines ps w rule: getOutput_loop.induct)
     (auto simp: Let_def split: if_splits)

lemma wait_loop_statuses:
  "TimerFires \<notin> set ps \<Longrightarrow> wait_loop ps w = Some (out, ps', w') \<Longrightarrow>
   run_statuses w' = run_statuses w \<and> TimerFires \<notin> set ps'"
  by (induction ps w rule: wait_loop.induct) (auto split: if_splits)

lemma drain_statuses:
  "TimerFires \<notin> set ps \<Longrightarrow> drain ps w = (ps', w') \<Longrightarrow> run_statuses w' = run_statuses w"
  by (induction ps w rule: drain.induct) auto

lemma finish_wait_raises:
  "finish_wait kw t pkey output st w = (Inl e, w') \<Longrightarrow> run_statuses w' = run_statuses w"
  by (auto simp: finish_wait_def dump_output_eq Let_def effect_def
           split: option.splits if_splits)

text \<open>So an exception raised inside \<^verbatim>\<open>processWait\<close> finds the run statuses untouched.\<close>

lemma processWait_body_raises_statuses:
  assumes "TimerFires \<notin> set ps" and "processWait_body (ps, t) kw w = Some (Inl e, w1)"
  shows "run_statuses w1 = run_statuses w"
proof (cases "u_getOutput ps (patterns kw) (key_of kw) w")
  case None
  then show ?thesis using assms(2) by (simp add: processWait_body_def Let_def)
next
  case (Some a)
  obtain out ps1 w2 where a: "a = (out, ps1, w2)" by (cases a)
  have g: "getOutput_loop (pattern_list kw) (key_of kw) [] ps w = Some (out, ps1, w2)"
    using Some a by (simp add: pattern_list_eq)
  have s2: "run_statuses w2 = run_statuses w" and t1: "TimerFires \<notin> set ps1"
    using getOutput_loop_statuses[OF assms(1) g] by simp_all
  show ?thesis
  proof (cases out)
    case (Inl e1)
    then show ?thesis using assms(2) Some a s2 by (simp add: processWait_body_def Let_def)
  next
    case (Inr lm)
    obtain outp match where lm: "lm = (outp, match)" by (cases lm)
    show ?thesis
    proof (cases match)
      case True
      then have "finish_wait kw t (key_of kw) outp (Some 0)
                   (effect Terminate (effect StdoutClose w2)) = (Inl e, w1)"
        using assms(2) Some a Inr lm by (simp add: processWait_body_def Let_def)
      then show ?thesis using finish_wait_raises s2 by fastforce
    next
      case False
      show ?thesis
      proof (cases "wait_loop ps1 (effect StdoutClose w2)")
        case None
        then show ?thesis
          using assms(2) Some a Inr lm False by (simp add: processWait_body_def Let_def)
      next
        case (Some b)
        obtain wout ps2 w3 where b: "b = (wout, ps2, w3)" by (cases b)
        have s3: "run_statuses w3 = run_statuses w" and t2: "TimerFires \<notin> set ps2"
          using wait_loop_statuses[OF t1, of "effect StdoutClose w2" wout ps2 w3] Some b s2
          by simp_all
        show ?thesis
        proof (cases wout)
          case (Inl e2)
          then show ?thesis
            using assms(2) \<open>u_getOutput ps (patterns kw) (key_of kw) w = Some a\<close> a Inr lm
              False Some b s3
            by (simp add: processWait_body_def Let_def)
        next
          case (Inr status_opt)
          obtain ps3 w4 where d: "drain ps2 w3 = (ps3, w4)" by (cases "drain ps2 w3")
          have s4: "run_statuses w4 = run_statuses w" using drain_statuses[OF t2 d] s3 by simp
          have "finish_wait kw t (key_of kw) outp (Some 0)
                   (effect Terminate (log_info KilledAtUserRequest w4)) = (Inl e, w1)
                \<or> finish_wait kw t (key_of kw) outp status_opt w4 = (Inl e, w1)"
            using assms(2) \<open>u_getOutput ps (patterns kw) (key_of kw) w = Some a\<close> a
              \<open>out = Inr lm\<close> lm False Some b Inr d
            by (simp add: processWait_body_def Let_def split: if_splits)
          then show ?thesis using finish_wait_raises s4 by fastforce
        qed
      qed
    qed
  qed
qed

lemma getRunStatus_spawned:
  "getRunStatus k (spawned args kw w) = getRunStatus k w"
  by (simp add: spawned_def Let_def getRunStatus_def world_ops split: option.splits)

lemma getRunStatus_before_attempt: "getRunStatus (key_of kw) (before_attempt kw w) = 0"
  by (simp add: before_attempt_def Let_def getRunStatus_def world_ops split: option.splits)

lemma procs_before_attempt [simp]: "procs (before_attempt kw w) = procs w"
  by (simp add: before_attempt_def Let_def split: option.splits)

text \<open>
  C10, as amended. The spawn having succeeded in a blocking run: if an instance of
  \<^verbatim>\<open>Exception\<close> is raised inside \<^verbatim>\<open>processWait\<close> and no timer has fired,
  \<^verbatim>\<open>processWait\<close> catches it and returns the empty list with the error string, the run
  status is still the 0 that \<^verbatim>\<open>processRun\<close> set before the attempt, and \<^verbatim>\<open>processRun\<close>
  takes the attempt for a success: it logs the success unless \<^verbatim>\<open>silent\<close> is set, makes
  no other attempt and returns the failing result.
\<close>

theorem exception_in_wait_counts_as_success:
  assumes "0 < retryCount"
    and "process_key kw = Some key"
    and "\<not> non_blocking kw" and "\<not> async kw"
    and "procs w = p # rest" and "spawn_error p = None"
    and "TimerFires \<notin> set (events p)"
    and "processWait_body (events p, has_timer kw) kw (spawned args kw (before_attempt kw w))
           = Some (Inl e, w1)"
    and "is_Exception e"
  shows "processWait (events p, has_timer kw) kw (spawned args kw (before_attempt kw w))
           = Some (Inr (Lines [], Some (error_string e)), log_error (wait_handler_msg e) w1)
       \<and> getRunStatus key (log_error (wait_handler_msg e) w1) = 0
       \<and> processRun_loop args kw retryCount ret w
           = Some (Inr (Lines [], Some (error_string e)),
                   if silent kw then log_error (wait_handler_msg e) w1
                   else log_info (ProcessSucceeded (join '' '' args))
                          (log_error (wait_handler_msg e) w1))
       \<and> attempts (log_error (wait_handler_msg e) w1) = Suc (attempts w)"
proof -
  let ?w0 = "before_attempt kw w"
  let ?wl = "log_error (wait_handler_msg e) w1"
  have ko: "key_of kw = key" using assms(2) by (simp add: key_of_def)
  have pw: "processWait (events p, has_timer kw) kw (spawned args kw ?w0)
              = Some (Inr (Lines [], Some (error_string e)), ?wl)"
    using processWait_handles[OF assms(8,9)] .
  have pr: "procs ?w0 = p # rest" using assms(5) by simp
  have up: "u_processRun args kw ?w0 = Some (Inr (Lines [], Some (error_string e)), ?wl)"
    using u_processRun_spawned[OF assms(2) pr assms(6) assms(3) assms(4), of args] pw by simp
  have "run_statuses w1 = run_statuses (spawned args kw ?w0)"
    using processWait_body_raises_statuses[OF assms(7,8)] .
  then have "getRunStatus key w1 = getRunStatus key (spawned args kw ?w0)"
    by (simp add: getRunStatus_def)
  then have st: "getRunStatus key ?wl = 0"
    using getRunStatus_spawned[of key args kw ?w0] getRunStatus_before_attempt[of kw w] ko
    by simp
  have lp: "processRun_loop args kw retryCount ret w
           = Some (Inr (Lines [], Some (error_string e)),
                   if silent kw then ?wl
                   else log_info (ProcessSucceeded (join '' '' args)) ?wl)"
    using assms(1) up st ko by (subst processRun_loop.simps) simp
  have at: "attempts ?wl = Suc (attempts w)" using u_processRun_attempts[OF up] by simp
  show ?thesis using pw st lp at by simp
qed

text \<open>Reading the output raises \<^verbatim>\<open>OSError\<close>: the call logs a success and returns the error.\<close>

theorem exception_in_wait_witness:
  "(0::int) < 3 \<and> process_key kw_key = Some [] \<and> \<not> non_blocking kw_key \<and> \<not> async kw_key
   \<and> procs w_raises = [proc_raises, proc_fails] \<and> spawn_error proc_raises = None
   \<and> TimerFires \<notin> set (events proc_raises) \<and> is_Exception (OtherException ''OSError'')
   \<and> (\<exists>w1. processWait_body (events proc_raises, has_timer kw_key) kw_key
               (spawned cmd_ex kw_key (before_attempt kw_key w_raises))
             = Some (Inl (OtherException ''OSError''), w1)
          \<and> processRun_loop cmd_ex kw_key 3 None w_raises
             = Some (Inr (Lines [], Some (class_repr ''OSError'')),
                     log_info (ProcessSucceeded (join '' '' cmd_ex))
                       (log_error (UnknownException (class_repr ''OSError'')) w1))
          \<and> procs w1 = [proc_fails])"
proof -
  have z: "(0::int) < 3" by simp
  have k: "process_key kw_key = Some []" by (simp add: kw_key_def)
  have nb: "\<not> non_blocking kw_key" and na: "\<not> async kw_key" and si: "\<not> silent kw_key"
    by (simp_all add: kw_key_def kwargs0_def)
  have p: "procs w_raises = proc_raises # [proc_fails]" by (simp add: w_raises_def)
  have s: "spawn_error proc_raises = None" by (simp add: proc_raises_def)
  have t: "TimerFires \<notin> set (events proc_raises)" by (simp add: proc_raises_def)
  have e: "is_Exception (OtherException ''OSError'')" by simp
  obtain w1 where
    b: "processWait_body (events proc_raises, has_timer kw_key) kw_key
               (spawned cmd_ex kw_key (before_attempt kw_key w_raises))
             = Some (Inl (OtherException ''OSError''), w1)"
    and p1: "procs w1 = [proc_fails]"
    by (simp add: attempt_defs registry_defs world_ops example_defs kw_key_def w_raises_def
          proc_raises_def spawned_def has_timer_def)
  show ?thesis
    using exception_in_wait_counts_as_success[OF z k nb na p s t b e, of None]
      z k nb na p s t e b p1 si
    by auto
qed

text \<open>
  C10 as stated fails. With \<^verbatim>\<open>silent\<close> set, no success is logged. When the timer has
  fired before the exception, the run status is 1 and the failure is logged. And an
  exception outside \<^verbatim>\<open>Exception\<close> is not caught by \<^verbatim>\<open>processWait\<close>.
\<close>

theorem exception_in_wait_not_always_logged_success:
  "(\<exists>w'. processRun cmd_ex (kw_key\<lparr>silent := True\<rparr>) w_raises
            = Some (Inr (Lines [], Some (class_repr ''OSError'')), w')
         \<and> LogInfo (ProcessSucceeded (join '' '' cmd_ex)) \<notin> set (trace w'))
   \<and> (\<exists>w'. processRun cmd_ex kw_timeout
               (world0\<lparr>procs := [\<lparr>spawn_error = None,
                                    events = [TimerFires, ReadRaises (OtherException ''OSError'')]\<rparr>]\<rparr>)
              = Some (Inr (Lines [], Some (class_repr ''OSError'')), w')
           \<and> getRunStatus ''k1'' w' = 1
           \<and> LogInfo (ProcessSucceeded (join '' '' cmd_ex)) \<notin> set (trace w')
           \<and> LogInfo (ProcessFailed (join '' '' cmd_ex)) \<in> set (trace w'))
   \<and> (\<exists>w'. processWait (events proc_interrupt, False) kw_key world0
              = Some (Inl (NonException ''KeyboardInterrupt''), w'))"
  by (simp add: attempt_defs registry_defs world_ops example_defs kw_key_def w_raises_def
        proc_raises_def proc_interrupt_def kw_timeout_def processRun_def processRun_loop.simps)

section \<open>Kill at user request\<close>

lemma getRunTimeout_ops [simp]:
  "getRunTimeout k (effect e w) = getRunTimeout k w"
  "getRunTimeout k (log_info m w) = getRunTimeout k w"
  "getRunTimeout k (log_error m w) = getRunTimeout k w"
  "getRunTimeout k (setRunStatus st ov key w) = getRunTimeout k w"
  "getRunTimeout k (kill_request key w) = getRunTimeout k w"
  by (simp_all add: getRunTimeout_def world_ops)








lemma default_key_fields [simp]:
  "silent (default_key kw) = silent kw" "async (default_key kw) = async kw"
  "non_blocking (default_key kw) = non_blocking kw"
  "pattern_list (default_key kw) = pattern_list kw"
  "returned_lines (default_key kw) = returned_lines kw"
  "key_of (default_key kw) = key_of kw"
  "process_key (default_key kw) = Some (key_of kw)"
  by (auto simp: default_key_def pattern_list_def returned_lines_def key_of_def fun_eq_iff
           split: option.splits)





section \<open>What the retry loop writes\<close>

lemma timeout_flags_ops [simp]:
  "timeout_flags (effect e w) = timeout_flags w"
  "timeout_flags (log_info m w) = timeout_flags w"
  "timeout_flags (log_error m w) = timeout_flags w"
  "timeout_flags (setRunStatus st ov key w) = timeout_flags w"
  "timeout_flags (kill_request key w) = timeout_flags w"
  by (simp_all add: world_ops)

lemma killed_flags_ops [simp]:
  "killed_flags (effect e w) = killed_flags w"
  "killed_flags (log_info m w) = killed_flags w"
  "killed_flags (log_error m w) = killed_flags w"
  "killed_flags (setRunStatus st ov key w) = killed_flags w"
  "killed_flags (setRunTimeout b key w) = killed_flags w"
  "killed_flags (timer_fires w) = killed_flags w"
  by (simp_all add: world_ops split: option.splits prod.splits)

text \<open>
  While no timer fires and no other thread asks for a kill, nothing that an attempt does
  writes the two tables of flags.
\<close>

lemma getOutput_loop_flags:
  "no_async ps \<Longrightarrow> getOutput_loop pats key lines ps w = Some (out, ps', w') \<Longrightarrow>
   timeout_flags w' = timeout_flags w \<and> killed_flags w' = killed_flags w \<and> no_async ps'"
  by (induction pats key lines ps w rule: getOutput_loop.induct)
     (auto simp: Let_def split: if_splits)

lemma wait_loop_flags:
  "no_async ps \<Longrightarrow> wait_loop ps w = Some (out, ps', w') \<Longrightarrow>
   timeout_flags w' = timeout_flags w \<and> killed_flags w' = killed_flags w \<and> no_async ps'"
  by (induction ps w rule: wait_loop.induct) (auto split: if_splits)

lemma drain_flags:
  "no_async ps \<Longrightarrow> drain ps w = (ps', w') \<Longrightarrow>
   timeout_flags w' = timeout_flags w \<and> killed_flags w' = killed_flags w"
  by (induction ps w rule: drain.induct) auto

lemma finish_wait_flags:
  "finish_wait kw t pkey outp st w = (out, w') \<Longrightarrow>
   timeout_flags w' = timeout_flags w \<and> killed_flags w' = killed_flags w"
  by (auto simp: finish_wait_def dump_output_eq Let_def
           split: option.splits if_splits)

lemma processWait_body_flags:
  assumes "no_async ps" and "processWait_body (ps, t) kw w = Some (out, w')"
  shows "timeout_flags w' = timeout_flags w \<and> killed_flags w' = killed_flags w"
proof (cases "getOutput_loop (pattern_list kw) (key_of kw) [] ps w")
  case None
  then show ?thesis using assms(2) by (simp add: processWait_body_def pattern_list_eq Let_def)
next
  case (Some a)
  obtain gout ps1 w1 where a: "a = (gout, ps1, w1)" by (cases a)
  have f1: "timeout_flags w1 = timeout_flags w \<and> killed_flags w1 = killed_flags w"
    and n1: "no_async ps1"
    using getOutput_loop_flags[OF assms(1)] Some a by blast+
  show ?thesis
  proof (cases gout)
    case (Inl e)
    then show ?thesis
      using assms(2) Some a f1 by (auto simp: processWait_body_def pattern_list_eq Let_def)
  next
    case (Inr lm)
    obtain outp match where lm: "lm = (outp, match)" by (cases lm)
    show ?thesis
    proof (cases match)
      case True
      then have "finish_wait kw t (key_of kw) outp (Some 0)
                   (effect Terminate (effect StdoutClose w1)) = (out, w')"
        using assms(2) Some a Inr lm by (simp add: processWait_body_def pattern_list_eq Let_def)
      then show ?thesis using finish_wait_flags f1 by fastforce
    next
      case False
      show ?thesis
      proof (cases "wait_loop ps1 (effect StdoutClose w1)")
        case None
        then show ?thesis
          using assms(2) Some a Inr lm False
          by (simp add: processWait_body_def pattern_list_eq Let_def)
      next
        case (Some b)
        obtain wout ps2 w3 where b: "b = (wout, ps2, w3)" by (cases b)
        have f3: "timeout_flags w3 = timeout_flags w \<and> killed_flags w3 = killed_flags w"
          and n2: "no_async ps2"
          using wait_loop_flags[OF n1, of "effect StdoutClose w1" wout ps2 w3] Some b f1
          by simp_all
        show ?thesis
        proof (cases wout)
          case (Inl e2)
          then show ?thesis
            using assms(2) \<open>getOutput_loop (pattern_list kw) (key_of kw) [] ps w = Some a\<close> a
              \<open>gout = Inr lm\<close> lm False Some b f3
            by (auto simp: processWait_body_def pattern_list_eq Let_def)
        next
          case (Inr status_opt)
          obtain ps3 w4 where d: "drain ps2 w3 = (ps3, w4)" by (cases "drain ps2 w3")
          have f4: "timeout_flags w4 = timeout_flags w \<and> killed_flags w4 = killed_flags w"
            using drain_flags[OF n2 d] f3 by simp
          have "finish_wait kw t (key_of kw) outp (Some 0)
                   (effect Terminate (log_info KilledAtUserRequest w4)) = (out, w')
                \<or> finish_wait kw t (key_of kw) outp status_opt w4 = (out, w')"
            using assms(2) \<open>getOutput_loop (pattern_list kw) (key_of kw) [] ps w = Some a\<close> a
              \<open>gout = Inr lm\<close> lm False Some b Inr d
            by (simp add: processWait_body_def pattern_list_eq Let_def split: if_splits)
          then show ?thesis using finish_wait_flags f4 by fastforce
        qed
      qed
    qed
  qed
qed

lemma processWait_flags:
  "no_async ps \<Longrightarrow> processWait (ps, t) kw w = Some (out, w') \<Longrightarrow>
   timeout_flags w' = timeout_flags w \<and> killed_flags w' = killed_flags w"
  by (auto simp: processWait_def split: option.splits prod.splits sum.splits exc.splits
           dest!: processWait_body_flags)

lemma processRun_body_flags:
  assumes "list_all (\<lambda>p. no_async (events p)) (procs w)"
    and "processRun_body args kw w = Some (out, w')"
  shows "timeout_flags w' = timeout_flags w \<and> killed_flags w' = killed_flags w
       \<and> list_all (\<lambda>p. no_async (events p)) (procs w')"
proof (cases "procs w")
  case Nil
  then show ?thesis
    using assms(2) by (auto simp: processRun_body_def u_Popen_def split: if_splits)
next
  case (Cons p rest)
  have np: "no_async (events p)" and nr: "list_all (\<lambda>p. no_async (events p)) rest"
    using assms(1) Cons by simp_all
  let ?w1 = "effect (Popen args (env kw)) (w\<lparr>procs := rest\<rparr>)"
  have pw: "timeout_flags w'' = timeout_flags w \<and> killed_flags w'' = killed_flags w
            \<and> list_all (\<lambda>p. no_async (events p)) (procs w'')"
    if "processWait (events p, t) kw w2 = Some (out, w'')"
      and "timeout_flags w2 = timeout_flags w" and "killed_flags w2 = killed_flags w"
      and "procs w2 = rest" for t w2 w''
    using processWait_flags[OF np that(1)] processWait_ghost[OF that(1)] that(2,3,4) nr by simp
  show ?thesis
  proof (cases "non_blocking kw \<or> spawn_error p \<noteq> None")
    case True
    then show ?thesis
      using assms(2) Cons nr
      by (auto simp: processRun_body_def u_Popen_def Let_def effect_def
               split: if_splits option.splits)
  next
    case False
    then have nb: "\<not> non_blocking kw" and sp: "spawn_error p = None" by simp_all
    show ?thesis
    proof (cases "has_timer kw")
      case False
      then have b: "processRun_body args kw w
                     = (if async kw then Some (Inr (Handle (events p) False, None), ?w1)
                        else processWait (events p, False) kw ?w1)"
        using Cons nb sp
        by (simp add: processRun_body_def u_Popen_def has_timer_def Let_def split: option.splits)
      show ?thesis
      proof (cases "async kw")
        case True
        then show ?thesis using assms(2) b nr by (auto simp: effect_def)
      next
        case False
        then have "processWait (events p, False) kw ?w1 = Some (out, w')"
          using assms(2) b by simp
        then show ?thesis using pw[of False ?w1 w'] by (simp add: effect_def)
      qed
    next
      case True
      then obtain secs where to: "timeout kw = Some secs" and s0: "secs \<noteq> 0"
        by (auto simp: has_timer_def split: option.splits)
      show ?thesis
      proof (cases "process_key kw")
        case None
        then show ?thesis
          using assms(2) Cons nb sp to s0 nr
          by (auto simp: processRun_body_def u_Popen_def Let_def effect_def)
      next
        case (Some pkey)
        let ?w2 = "(effect (TimerStart secs) ?w1)\<lparr>timer := Some (join '' '' args, pkey)\<rparr>"
        have b: "processRun_body args kw w
                     = (if async kw then Some (Inr (Handle (events p) True, None), ?w2)
                        else processWait (events p, True) kw ?w2)"
          using Cons nb sp to s0 Some
          by (simp add: processRun_body_def u_Popen_def Let_def)
        show ?thesis
        proof (cases "async kw")
          case True
          then show ?thesis using assms(2) b nr by (auto simp: effect_def)
        next
          case False
          then have "processWait (events p, True) kw ?w2 = Some (out, w')"
            using assms(2) b by simp
          then show ?thesis using pw[of True ?w2 w'] by (simp add: effect_def)
        qed
      qed
    qed
  qed
qed

lemma u_processRun_flags:
  assumes "list_all (\<lambda>p. no_async (events p)) (procs w)"
    and "u_processRun args kw w = Some (out, w')"
  shows "timeout_flags w' = timeout_flags w \<and> killed_flags w' = killed_flags w
       \<and> list_all (\<lambda>p. no_async (events p)) (procs w')"
proof -
  let ?w1 = "if \<not> silent kw then log_info (Running (join '' '' args))
                                   (w\<lparr>attempts := Suc (attempts w)\<rparr>)
             else w\<lparr>attempts := Suc (attempts w)\<rparr>"
  have l1: "list_all (\<lambda>p. no_async (events p)) (procs ?w1)" using assms(1) by simp
  have f1: "timeout_flags ?w1 = timeout_flags w" "killed_flags ?w1 = killed_flags w" by simp_all
  obtain bout w2 where b: "processRun_body args kw ?w1 = Some (bout, w2)"
    using assms(2) by (cases "processRun_body args kw ?w1") (auto simp: u_processRun_def Let_def)
  have f2: "timeout_flags w2 = timeout_flags w \<and> killed_flags w2 = killed_flags w
            \<and> list_all (\<lambda>p. no_async (events p)) (procs w2)"
    using processRun_body_flags[OF l1 b] f1 by simp
  show ?thesis
    using assms(2) b f2
    by (auto simp: u_processRun_def after_handler_def Let_def
             split: sum.splits exc.splits option.splits)
qed

lemma before_attempt_flags [simp]:
  "timeout_flags (before_attempt kw w) = timeout_flags w"
  "killed_flags (before_attempt kw w) = killed_flags w"
  by (simp_all add: before_attempt_def Let_def split: option.splits)

lemma processRun_loop_flags:
  "processRun_loop args kw n ret w = Some (out, w') \<Longrightarrow>
   list_all (\<lambda>p. no_async (events p)) (procs w) \<Longrightarrow>
   timeout_flags w' = timeout_flags w \<and> killed_flags w' = killed_flags w"
proof (induction args kw n ret w rule: processRun_loop.induct)
  case (1 args kw retryCount ret w)
  show ?case
  proof (cases "0 < retryCount")
    case False
    then show ?thesis using "1.prems"(1) by (auto simp: processRun_loop.simps split: option.splits)
  next
    case True
    have l0: "list_all (\<lambda>p. no_async (events p)) (procs (before_attempt kw w))"
      using "1.prems"(2) by simp
    show ?thesis
    proof (cases "u_processRun args kw (before_attempt kw w)")
      case None
      then show ?thesis using "1.prems"(1) True by (simp add: processRun_loop.simps)
    next
      case (Some a)
      obtain aout w1 where a: "a = (aout, w1)" by (cases a)
      have f1: "timeout_flags w1 = timeout_flags w" "killed_flags w1 = killed_flags w"
        and l1: "list_all (\<lambda>p. no_async (events p)) (procs w1)"
        using u_processRun_flags[OF l0, where args=args and out=aout and w'=w1] Some a by simp_all
      show ?thesis
      proof (cases aout)
        case (Inl e1)
        then show ?thesis
          using "1.prems"(1) True Some a f1 by (auto simp: processRun_loop.simps)
      next
        case (Inr r)
        show ?thesis
        proof (cases "getRunStatus (key_of kw) w1 = 0 \<or> getRunTimeout [] w1")
          case True
          then show ?thesis
            using "1.prems"(1) \<open>0 < retryCount\<close> Some a Inr f1
            by (auto simp: processRun_loop.simps split: if_splits)
        next
          case False
          then have nz: "getRunStatus (key_of kw) w1 \<noteq> 0" and nt: "\<not> getRunTimeout [] w1"
            by simp_all
          let ?w2 = "log_info (ProcessFailedWillRetry (retryCount - 1) (join '' '' args)) w1"
          have step: "processRun_loop args kw (retryCount - 1) (Some r) ?w2 = Some (out, w')"
            using "1.prems"(1) \<open>0 < retryCount\<close> Some a Inr nz nt
            by (simp add: processRun_loop.simps)
          have l2: "list_all (\<lambda>p. no_async (events p)) (procs ?w2)" using l1 by simp
          have "timeout_flags w' = timeout_flags ?w2 \<and> killed_flags w' = killed_flags ?w2"
            using "1.IH"[OF \<open>0 < retryCount\<close> Some] a Inr nz nt step l2 by auto
          then show ?thesis using f1 by simp
        qed
      qed
    qed
  qed
qed

text \<open>The reset before an attempt overwrites whatever status the key had.\<close>

lemma before_attempt_overwrites:
  "before_attempt kw (setRunStatus st True (key_of kw) w) = before_attempt kw w"
  by (simp add: before_attempt_def Let_def setRunStatus_def)

lemma processRun_loop_round:
  "0 < n \<Longrightarrow>
   processRun_loop args kw n ret w
     = (case u_processRun args kw (before_attempt kw w) of
          None \<Rightarrow> None
        | Some (Inl e, w') \<Rightarrow> Some (Inl e, w')
        | Some (Inr r, w') \<Rightarrow>
            if getRunStatus (key_of kw) w' = 0
            then Some (Inr r, if silent kw then w'
                              else log_info (ProcessSucceeded (join '' '' args)) w')
            else if getRunTimeout [] w'
            then Some (Inr r, log_info (ProcessFailed (join '' '' args)) w')
            else processRun_loop args kw (n - 1) (Some r)
                   (log_info (ProcessFailedWillRetry (n - 1) (join '' '' args)) w'))"
  by (subst processRun_loop.simps)
     (auto split: option.splits sum.splits prod.splits)

lemma processRun_loop_overwrites:
  "0 < n \<Longrightarrow>
   processRun_loop args kw n ret (setRunStatus st True (key_of kw) w)
     = processRun_loop args kw n ret w"
  by (simp add: processRun_loop_round before_attempt_overwrites)

text \<open>
  C8. In every round of its loop, whatever the retry count and the result so far,
  \<^verbatim>\<open>processRun\<close> first resets the run status of its key and makes the attempt in the world
  so reset: the status of the key is 0 there whatever it was, so that the outcome of the
  call does not depend on it, and the other statuses, the timed-out flags and the
  kill-request flags are as before. Nothing that \<^verbatim>\<open>processRun\<close> calls writes the flags
  either, the timeout guard (\<^verbatim>\<open>_kill\<close>, on another thread) and the other threads apart:
  when no timer fires and no other thread asks for a kill, the two tables of flags are after
  the call, however many attempts it makes, what they were before it.
\<close>

theorem retry_resets_only_status:
  "getRunStatus (key_of kw) (before_attempt kw w) = 0
   \<and> (\<forall>k. k \<noteq> key_of kw \<longrightarrow> run_statuses (before_attempt kw w) k = run_statuses w k)
   \<and> timeout_flags (before_attempt kw w) = timeout_flags w
   \<and> killed_flags (before_attempt kw w) = killed_flags w
   \<and> (\<forall>n ret. 0 < n \<longrightarrow>
         processRun_loop args kw n ret w
           = (case u_processRun args kw (before_attempt kw w) of
                None \<Rightarrow> None
              | Some (Inl e, w') \<Rightarrow> Some (Inl e, w')
              | Some (Inr r, w') \<Rightarrow>
                  if getRunStatus (key_of kw) w' = 0
                  then Some (Inr r, if silent kw then w'
                                    else log_info (ProcessSucceeded (join '' '' args)) w')
                  else if getRunTimeout [] w'
                  then Some (Inr r, log_info (ProcessFailed (join '' '' args)) w')
                  else processRun_loop args kw (n - 1) (Some r)
                         (log_info (ProcessFailedWillRetry (n - 1) (join '' '' args)) w')))
   \<and> (\<forall>n ret st. 0 < n \<longrightarrow>
         processRun_loop args kw n ret (setRunStatus st True (key_of kw) w)
           = processRun_loop args kw n ret w)
   \<and> (\<forall>st. 1 \<le> (case retry kw of None \<Rightarrow> 3 | Some n \<Rightarrow> n) \<longrightarrow>
         processRun args kw (setRunStatus st True (key_of kw) w) = processRun args kw w)
   \<and> (\<forall>out w'. list_all (\<lambda>p. no_async (events p)) (procs w)
                 \<and> processRun args kw w = Some (out, w')
        \<longrightarrow> timeout_flags w' = timeout_flags w \<and> killed_flags w' = killed_flags w)"
proof -
  have a: "\<forall>k. k \<noteq> key_of kw \<longrightarrow> run_statuses (before_attempt kw w) k = run_statuses w k"
    by (simp add: before_attempt_def Let_def world_ops split: option.splits)
  have b: "timeout_flags w' = timeout_flags w \<and> killed_flags w' = killed_flags w"
    if "list_all (\<lambda>p. no_async (events p)) (procs w)" "processRun args kw w = Some (out, w')"
    for out w'
    using processRun_loop_flags[OF _ that(1)] that(2) by (simp add: processRun_def Let_def)
  have k: "key_of (default_key kw) = key_of kw"
    by (simp add: default_key_def key_of_def)
  have c: "processRun args kw (setRunStatus st True (key_of kw) w) = processRun args kw w"
    if "1 \<le> (case retry kw of None \<Rightarrow> 3 | Some n \<Rightarrow> n)" for st
    using processRun_loop_overwrites[of "case retry kw of None \<Rightarrow> 3 | Some n \<Rightarrow> n" args
            "default_key kw" None st w] that k
    by (simp add: processRun_def Let_def)
  show ?thesis
    using a b c getRunStatus_before_attempt[of kw w] processRun_loop_round[of _ args kw _ w]
      processRun_loop_overwrites[of _ args kw _ _ w]
    by simp
qed

text \<open>
  A failure recorded for the key \<open>k1\<close> by an earlier run is in the registry, with flags
  of another key. The first attempt fails, the second succeeds: the status of \<open>k1\<close> is 0
  in the end, which it is only if it has been reset before the second attempt as well; the
  flags are as they were; and the failure recorded first makes no difference.
\<close>

theorem retry_resets_only_status_witness:
  "list_all (\<lambda>p. no_async (events p)) (procs w_retry)
   \<and> (1::int) \<le> (case retry kw_k1 of None \<Rightarrow> 3 | Some n \<Rightarrow> n)
   \<and> getRunStatus ''k1'' w_retry = 1
   \<and> getRunStatus (key_of kw_k1) (before_attempt kw_k1 w_retry) = 0
   \<and> (\<exists>w'. processRun cmd_ex kw_k1 w_retry = Some (Inr (Lines [''ok''], None), w')
         \<and> attempts w' = 2 \<and> getRunStatus ''k1'' w' = 0
         \<and> timeout_flags w' = timeout_flags w_retry \<and> killed_flags w' = killed_flags w_retry)
   \<and> processRun cmd_ex kw_k1 (setRunStatus 0 True (key_of kw_k1) w_retry)
       = processRun cmd_ex kw_k1 w_retry"
proof -
  have l: "list_all (\<lambda>p. no_async (events p)) (procs w_retry)"
    by (simp add: w_retry_def example_defs)
  have r: "(1::int) \<le> (case retry kw_k1 of None \<Rightarrow> 3 | Some n \<Rightarrow> n)"
    by (simp add: kw_k1_def kwargs0_def)
  obtain w' where p: "processRun cmd_ex kw_k1 w_retry = Some (Inr (Lines [''ok''], None), w')"
    and a: "attempts w' = 2" and s': "getRunStatus ''k1'' w' = 0"
    by (simp add: attempt_defs registry_defs world_ops example_defs kw_k1_def w_retry_def
          processRun_def processRun_loop.simps)
  have s: "getRunStatus ''k1'' w_retry = 1"
    by (simp add: getRunStatus_def w_retry_def world0_def)
  show ?thesis
    using retry_resets_only_status[of kw_k1 w_retry cmd_ex] l r p a s s' by blast
qed

section \<open>Runs with distinct keys\<close>

text \<open>
  C7: the timeout of a run with the key \<open>k1\<close> must not make a run with another key
  \<open>k2\<close> skip its retries. The code does not keep to it. A run with the key \<open>k1\<close> hangs
  and is killed by its timer:
  \<^verbatim>\<open>_kill\<close> sets the status of \<open>k1\<close>, and the timed-out flag with no key. A later run
  with the key \<open>k2\<close>, allowed three attempts, fails once and stops, because
  \<^verbatim>\<open>processRun\<close> reads the timed-out flag with no key; in a registry that has seen no
  timeout the same run makes its three attempts.
\<close>

theorem timeout_of_other_key_stops_retries:
  "(\<exists>w1. processRun cmd_ex kw_timeout w_seq = Some (Inr (Lines [], Some ''working''), w1)
          \<and> attempts w1 = 1 \<and> getRunStatus ''k2'' w1 = 0 \<and> getRunTimeout [] w1
          \<and> procs w1 = [proc_fails, proc_fails, proc_fails]
          \<and> (\<exists>w2. processRun cmd_ex kw_k2 w1
                      = Some (Inr (Lines [], Some ''error: no device''), w2)
                   \<and> attempts w2 = 2 \<and> procs w2 = [proc_fails, proc_fails]))
   \<and> (\<exists>w3. processRun cmd_ex kw_k2 (world0\<lparr>procs := [proc_fails, proc_fails, proc_fails]\<rparr>)
              = Some (Inr (Lines [], Some ''error: no device''), w3)
           \<and> attempts w3 = 3 \<and> procs w3 = [])"
  by (simp add: attempt_defs registry_defs world_ops example_defs kw_timeout_def kw_k2_def
        w_seq_def processRun_def processRun_loop.simps)

end
